theory Spec2Isabelle
  imports Main "HOL-Library.Word"
begin

section \<open>Data model\<close>

text \<open>
  Instants and durations are counted in nanoseconds, as Go's \<open>time\<close> package does.
  A Go map that may be \<open>nil\<close> is a value of \<open>gomap\<close>: reading a nil map finds
  nothing, ranging over it visits nothing, and \<open>make\<close> yields a non-nil empty map.
\<close>

type_synonym uint64 = "64 word"
type_synonym instant = int

datatype ('k, 'v) gomap = NilMap | GoMap "'k \<rightharpoonup> 'v"

fun gomap_lookup :: "('k, 'v) gomap \<Rightarrow> 'k \<rightharpoonup> 'v" where
  "gomap_lookup NilMap k = None"
| "gomap_lookup (GoMap m) k = m k"

fun gomap_keys :: "('k, 'v) gomap \<Rightarrow> 'k set" where
  "gomap_keys NilMap = {}"
| "gomap_keys (GoMap m) = dom m"

definition make_map :: "('k, 'v) gomap" where
  "make_map = GoMap Map.empty"

text \<open>
  Modelled from the spec: the type declarations of package \<open>patreon\<close> (Tokens, Patron,
  the member attributes, PledgeResponse and RefreshResponse) are not among the sources.
  The records below carry the fields that the functions under \<open>src/\<close> read and write,
  with the types the spec's data model gives them. Nested selectors of the source are
  flattened into one field name: \<open>member.Relationships.User.Data.Id\<close> is
  \<open>Relationships_User_Data_Id\<close>.
\<close>

record Tokens =
  AccessToken :: string
  RefreshToken :: string
  ExpiresAt :: instant

record MemberAttributes =
  Email :: string
  PatronStatus :: string
  LastChargeStatus :: string
  LastChargeDate :: instant
  PledgeRelationshipStart :: instant

record Patron =
  Attributes :: MemberAttributes
  Id :: uint64
  Tiers :: "uint64 list"
  DiscordId :: "uint64 option"

record Member =
  Member_Attributes :: MemberAttributes
  Relationships_User_Data_Id :: uint64
  Relationships_CurrentlyEntitledTiers_Data :: "uint64 list"

record IncludedResource =
  Included_Id :: uint64
  SocialConnections_Discord_Id :: "uint64 option"

text \<open>
  \<open>Links\<close> is a pointer to a struct whose \<open>Next\<close> is a pointer to a string:
  the outer \<open>None\<close> is \<open>res.Links == nil\<close>, \<open>Some None\<close> is \<open>res.Links.Next == nil\<close>.
\<close>

record PledgeResponse =
  Data :: "Member list"
  Included :: "IncludedResource list"
  Links :: "string option option"

record RefreshResponse =
  Resp_AccessToken :: string
  Resp_RefreshToken :: string
  ExpiresIn :: "64 word"

text \<open>The fields of \<open>config.Config\<close> that the synchronisation core and the lookup read.\<close>

record Config =
  Discord_AllowedGuilds :: "uint64 list"
  Patreon_ClientId :: string
  Patreon_ClientSecret :: string
  Patreon_CampaignId :: int
  Config_Tiers :: "uint64 \<rightharpoonup> string"

section \<open>The server's published snapshot (internal/server)\<close>

record Server =
  config :: Config
  pledges :: "(string, Patron) gomap"
  pledgesByDiscordId :: "(uint64, Patron) gomap"

definition NewServer :: "Config \<Rightarrow> Server" where
  "NewServer conf = \<lparr>config = conf, pledges = NilMap, pledgesByDiscordId = NilMap\<rparr>"

text \<open>
  The loop of \<open>UpdatePledges\<close>: \<open>for _, pledge := range pledges\<close>, storing every pledge
  that has a Discord id under that id. Go leaves the order of a map range unspecified, so
  the order in which the keys are visited is a parameter: any list that holds every key
  of the map once.
\<close>

fun group_by_discord :: "(uint64 \<rightharpoonup> Patron) \<Rightarrow> Patron list \<Rightarrow> (uint64 \<rightharpoonup> Patron)" where
  "group_by_discord x [] = x"
| "group_by_discord x (pledge # rest) =
     group_by_discord
       (case DiscordId pledge of
          Some d \<Rightarrow> x(d \<mapsto> pledge)
        | None \<Rightarrow> x) rest"

definition range_order :: "('k, 'v) gomap \<Rightarrow> 'k list \<Rightarrow> bool" where
  "range_order m ks \<longleftrightarrow> distinct ks \<and> set ks = gomap_keys m"

definition UpdatePledges :: "string list \<Rightarrow> (string, Patron) gomap \<Rightarrow> Server \<Rightarrow> Server" where
  "UpdatePledges order new_pledges s =
     s\<lparr>pledges := new_pledges,
       pledgesByDiscordId :=
         GoMap (group_by_discord Map.empty (List.map_filter (gomap_lookup new_pledges) order))\<rparr>"

text \<open>A map is keyed by email when every patron is stored under its own email attribute.\<close>

definition keyed_by_email :: "(string, Patron) gomap \<Rightarrow> bool" where
  "keyed_by_email m \<longleftrightarrow> (\<forall>e p. gomap_lookup m e = Some p \<longrightarrow> Email (Attributes p) = e)"

section \<open>The world outside the process\<close>

text \<open>
  What the process cannot decide is read from an environment: the \<open>k\<close>-th reading of
  the clock, whether a URL is accepted by \<open>http.NewRequestWithContext\<close>, whether the
  \<open>k\<close>-th wait on the rate limiter returns without error, what the \<open>k\<close>-th call of
  \<open>httpClient.Do\<close> yields for the request it is given (\<open>None\<close> is a transport error,
  which includes a cancelled or timed-out context), whether the \<open>k\<close>-th statement sent to
  the database succeeds, and how a response body decodes as JSON. The deadlines that the
  source attaches to its contexts (30 seconds, 10 minutes, one hour) act only through
  these answers: a deadline that fires makes the wait or the request fail.
\<close>

datatype http_method = GET | POST

record Request =
  Method :: http_method
  URL :: string
  Header :: "(string \<times> string) list"

text \<open>\<open>Body = None\<close> is a body that cannot be read to its end.\<close>

record Response =
  StatusCode :: int
  Body :: "string option"

record Env =
  Now :: "nat \<Rightarrow> instant"
  NewRequest_ok :: "string \<Rightarrow> bool"
  Wait_ok :: "nat \<Rightarrow> bool"
  Do :: "nat \<Rightarrow> Request \<Rightarrow> Response option"
  Exec_ok :: "nat \<Rightarrow> bool"
  decode_PledgeResponse :: "string \<Rightarrow> PledgeResponse option"
  decode_RefreshResponse :: "string \<Rightarrow> RefreshResponse option"

datatype error =
    ErrTokenExpired instant
  | ErrNewRequest
  | ErrRateLimiter
  | ErrTransport
  | ErrReadBody
  | ErrStatus int
  | ErrDecode
  | ErrDatabase

datatype level = DebugLevel | InfoLevel | WarnLevel | ErrorLevel | FatalLevel

datatype zap_field =
    zap_Uint64 string uint64
  | zap_String string string
  | zap_Int string int
  | zap_Time string instant
  | zap_Error error

type_synonym log_entry = "level \<times> string \<times> zap_field list"

text \<open>
  The state that the calls change: how often the clock, the limiter and the database
  have been asked, the requests handed to the HTTP client in order, the table
  \<open>patreon_keys\<close> by client id, and the log.
\<close>

record World =
  clock_reads :: nat
  waits :: nat
  requests :: "Request list"
  execs :: nat
  patreon_keys :: "string \<rightharpoonup> Tokens"
  log :: "log_entry list"

definition logger :: "level \<Rightarrow> string \<Rightarrow> zap_field list \<Rightarrow> World \<Rightarrow> World" where
  "logger lvl msg fs w = w\<lparr>log := log w @ [(lvl, msg, fs)]\<rparr>"

definition time_Now :: "Env \<Rightarrow> World \<Rightarrow> instant \<times> World" where
  "time_Now env w = (Now env (clock_reads w), w\<lparr>clock_reads := Suc (clock_reads w)\<rparr>)"

definition ratelimiter_Wait :: "Env \<Rightarrow> World \<Rightarrow> bool \<times> World" where
  "ratelimiter_Wait env w = (Wait_ok env (waits w), w\<lparr>waits := Suc (waits w)\<rparr>)"

definition httpClient_Do :: "Env \<Rightarrow> Request \<Rightarrow> World \<Rightarrow> Response option \<times> World" where
  "httpClient_Do env req w =
     (Do env (length (requests w)) req, w\<lparr>requests := requests w @ [req]\<rparr>)"

text \<open>
  \<open>UPDATE patreon_keys SET ... WHERE client_id = $4\<close>: a statement that fails changes
  nothing, and one that succeeds rewrites the row of that client id if there is one.
\<close>

definition db_Exec_update :: "Env \<Rightarrow> string \<Rightarrow> Tokens \<Rightarrow> World \<Rightarrow> bool \<times> World" where
  "db_Exec_update env client_id toks w =
     (let w1 = w\<lparr>execs := Suc (execs w)\<rparr> in
      if \<not> Exec_ok env (execs w) then (False, w1)
      else (True,
            if client_id \<in> dom (patreon_keys w1)
            then w1\<lparr>patreon_keys := (patreon_keys w1)(client_id \<mapsto> toks)\<rparr>
            else w1))"

subsection \<open>Durations and formatting\<close>

definition minDuration :: int where "minDuration = - (2 ^ 63)"
definition maxDuration :: int where "maxDuration = 2 ^ 63 - 1"

text \<open>\<open>t.Sub(u)\<close> saturates at the least and the greatest duration.\<close>

definition time_Sub :: "instant \<Rightarrow> instant \<Rightarrow> int" where
  "time_Sub t u = max minDuration (min maxDuration (t - u))"

definition time_Until :: "Env \<Rightarrow> instant \<Rightarrow> World \<Rightarrow> int \<times> World" where
  "time_Until env t w = (case time_Now env w of (now, w1) \<Rightarrow> (time_Sub t now, w1))"

definition Second :: int where "Second = 1000000000"
definition Hour :: int where "Hour = 3600 * Second"

text \<open>\<open>time.Duration(n) * time.Second\<close> is a product of 64-bit integers and wraps.\<close>

definition seconds :: "64 word \<Rightarrow> int" where
  "seconds n = sint (n * 1000000000)"

fun digits10 :: "nat \<Rightarrow> string" where
  "digits10 n =
     (if n < 10 then [''0123456789'' ! n]
      else digits10 (n div 10) @ [''0123456789'' ! (n mod 10)])"

definition sprint_int :: "int \<Rightarrow> string" where
  "sprint_int i = (if i < 0 then ''-'' @ digits10 (nat (- i)) else digits10 (nat i))"

definition sprint_uint64 :: "uint64 \<Rightarrow> string" where
  "sprint_uint64 x = digits10 (unat x)"

section \<open>The Patreon client (pkg/patreon)\<close>

record Client =
  client_config :: Config
  Tokens :: Tokens

definition UserAgent :: string where
  "UserAgent = ''tickets.bot/subscriptions-app (https://github.com/TicketsBot/subscriptions-app)''"

definition FetchPage :: "Env \<Rightarrow> Client \<Rightarrow> World \<Rightarrow> string \<Rightarrow> (error + PledgeResponse) \<times> World" where
  "FetchPage env c w0 url =
     (let w1 = logger DebugLevel ''Fetching page'' [zap_String ''url'' url] w0;
          (now, w2) = time_Now env w1 in
      if ExpiresAt (Tokens c) < now then (Inl (ErrTokenExpired (ExpiresAt (Tokens c))), w2)
      else if \<not> NewRequest_ok env url then (Inl ErrNewRequest, w2)
      else
        let req = \<lparr>Method = GET, URL = url,
                   Header = [(''Authorization'', ''Bearer '' @ AccessToken (Tokens c)),
                             (''User-Agent'', UserAgent)]\<rparr>;
            (ok, w3) = ratelimiter_Wait env w2 in
        if \<not> ok then (Inl ErrRateLimiter, w3)
        else
          case httpClient_Do env req w3 of
            (None, w4) \<Rightarrow> (Inl ErrTransport, w4)
          | (Some res, w4) \<Rightarrow>
              if StatusCode res \<noteq> 200 then
                (case Body res of
                   None \<Rightarrow>
                     (Inl ErrReadBody,
                      logger ErrorLevel ''error reading body of pledge response''
                        [zap_Int ''status_code'' (StatusCode res), zap_Error ErrReadBody] w4)
                 | Some body \<Rightarrow>
                     (Inl (ErrStatus (StatusCode res)),
                      logger ErrorLevel ''pledge response returned non-OK status code''
                        [zap_Int ''status_code'' (StatusCode res), zap_String ''body'' body] w4))
              else
                (case Option.bind (Body res) (decode_PledgeResponse env) of
                   None \<Rightarrow> (Inl ErrDecode, w4)
                 | Some body \<Rightarrow>
                     (Inr body,
                      logger DebugLevel ''Page fetched successfully'' [zap_String ''url'' url] w4)))"

definition FetchPageWithTimeout :: "Env \<Rightarrow> Client \<Rightarrow> World \<Rightarrow> string \<Rightarrow> (error + PledgeResponse) \<times> World" where
  "FetchPageWithTimeout env c w url = FetchPage env c w url"

text \<open>The inner loop over \<open>member.Relationships.CurrentlyEntitledTiers.Data\<close>.\<close>

fun parse_tiers :: "Config \<Rightarrow> uint64 list \<Rightarrow> uint64 list \<Rightarrow> World \<Rightarrow> uint64 list \<times> World" where
  "parse_tiers conf tiers [] w = (tiers, w)"
| "parse_tiers conf tiers (tier # rest) w =
     (case Config_Tiers conf tier of
        None \<Rightarrow>
          parse_tiers conf tiers rest
            (logger WarnLevel ''unknown tier'' [zap_Uint64 ''tier_id'' tier] w)
      | Some _ \<Rightarrow> parse_tiers conf (tiers @ [tier]) rest w)"

text \<open>The inner loop over \<open>res.Included\<close>, which stops at the first entry with the member's id.\<close>

fun parse_included :: "uint64 option \<Rightarrow> uint64 \<Rightarrow> IncludedResource list \<Rightarrow> uint64 option" where
  "parse_included discordId ident [] = discordId"
| "parse_included discordId ident (included # rest) =
     (if ident = Included_Id included then
        (case SocialConnections_Discord_Id included of
           Some tmp \<Rightarrow> Some tmp
         | None \<Rightarrow> discordId)
      else parse_included discordId ident rest)"

text \<open>The loop over \<open>res.Data\<close>, which writes into the map \<open>data\<close>.\<close>

fun range_Data :: "Config \<Rightarrow> IncludedResource list \<Rightarrow> (string \<rightharpoonup> Patron) \<Rightarrow> Member list \<Rightarrow> World
    \<Rightarrow> (string \<rightharpoonup> Patron) \<times> World" where
  "range_Data conf incl data [] w = (data, w)"
| "range_Data conf incl data (member # rest) w =
     (let ident = Relationships_User_Data_Id member in
      if Email (Member_Attributes member) = [] then
        range_Data conf incl data rest
          (logger DebugLevel ''member has no email'' [zap_Uint64 ''patron_id'' ident] w)
      else
        case parse_tiers conf [] (Relationships_CurrentlyEntitledTiers_Data member) w of
          (tiers, w1) \<Rightarrow>
            let discordId = parse_included None ident incl in
            range_Data conf incl
              (data(Email (Member_Attributes member) \<mapsto>
                 \<lparr>Attributes = Member_Attributes member, Id = ident,
                  Tiers = tiers, DiscordId = discordId\<rparr>))
              rest w1)"

text \<open>
  The outer loop \<open>for { ... }\<close> of \<open>FetchPledges\<close>. Nothing bounds the number of pages,
  so the loop is a partial function: \<open>None\<close> is a run that never returns. A result is
  the pair that the Go function returns, \<open>(nil, err)\<close> or \<open>(data, nil)\<close>.
\<close>

partial_function (option) FetchPledges_loop ::
  "Env \<Rightarrow> Client \<Rightarrow> string \<Rightarrow> (string \<rightharpoonup> Patron) \<Rightarrow> World
     \<Rightarrow> (((string, Patron) gomap \<times> error option) \<times> World) option" where
  "FetchPledges_loop env c url data w =
     (case FetchPageWithTimeout env c w url of
        (Inl err, w1) \<Rightarrow> Some ((NilMap, Some err), w1)
      | (Inr res, w1) \<Rightarrow>
          (case range_Data (client_config c) (Included res) data (Data res) w1 of
             (data', w2) \<Rightarrow>
               (case Links res of
                  None \<Rightarrow> Some ((GoMap data', None), w2)
                | Some None \<Rightarrow> Some ((GoMap data', None), w2)
                | Some (Some next) \<Rightarrow> FetchPledges_loop env c next data' w2)))"

declare FetchPledges_loop.simps [code]

definition members_url :: "Config \<Rightarrow> string" where
  "members_url conf =
     ''https://www.patreon.com/api/oauth2/v2/campaigns/'' @ sprint_int (Patreon_CampaignId conf) @
     ''/members?include=currently_entitled_tiers,user&fields%5Bmember%5D=last_charge_date,last_charge_status,patron_status,email,pledge_relationship_start&fields%5Buser%5D=social_connections''"

definition FetchPledges :: "Env \<Rightarrow> Client \<Rightarrow> World
     \<Rightarrow> (((string, Patron) gomap \<times> error option) \<times> World) option" where
  "FetchPledges env c w = FetchPledges_loop env c (members_url (client_config c)) Map.empty w"

definition refresh_url :: "Client \<Rightarrow> string" where
  "refresh_url c =
     ''https://www.patreon.com/api/oauth2/token?grant_type=refresh_token&refresh_token='' @
     RefreshToken (Tokens c) @ ''&client_id='' @ Patreon_ClientId (client_config c) @
     ''&client_secret='' @ Patreon_ClientSecret (client_config c)"

definition RefreshCredentials :: "Env \<Rightarrow> Client \<Rightarrow> World \<Rightarrow> error option \<times> Client \<times> World" where
  "RefreshCredentials env c w =
     (if \<not> NewRequest_ok env (refresh_url c) then
        (Some ErrNewRequest, c,
         logger ErrorLevel ''Failed to create request for refreshing Patreon credentials''
           [zap_Error ErrNewRequest] w)
      else
        let req = \<lparr>Method = POST, URL = refresh_url c, Header = [(''User-Agent'', UserAgent)]\<rparr>;
            (ok, w1) = ratelimiter_Wait env w in
        if \<not> ok then (Some ErrRateLimiter, c, w1)
        else
          case httpClient_Do env req w1 of
            (None, w2) \<Rightarrow>
              (Some ErrTransport, c,
               logger ErrorLevel ''Failed to refresh Patreon credentials'' [zap_Error ErrTransport] w2)
          | (Some res, w2) \<Rightarrow>
              if StatusCode res \<noteq> 200 then
                (case Body res of
                   None \<Rightarrow>
                     (Some ErrReadBody, c,
                      logger ErrorLevel ''error reading body of oauth response''
                        [zap_Int ''status_code'' (StatusCode res), zap_Error ErrReadBody] w2)
                 | Some body \<Rightarrow>
                     (Some (ErrStatus (StatusCode res)), c,
                      logger ErrorLevel ''oauth response returned non-OK status code''
                        [zap_Int ''status_code'' (StatusCode res), zap_String ''body'' body] w2))
              else
                (case Option.bind (Body res) (decode_RefreshResponse env) of
                   None \<Rightarrow>
                     (Some ErrDecode, c,
                      logger ErrorLevel ''Failed to decode Patreon refresh response''
                        [zap_Error ErrDecode] w2)
                 | Some body \<Rightarrow>
                     (let (now, w3) = time_Now env w2;
                            c' = c\<lparr>Tokens :=
                                   \<lparr>AccessToken = Resp_AccessToken body,
                                    RefreshToken = Resp_RefreshToken body,
                                    ExpiresAt = now + seconds (ExpiresIn body)\<rparr>\<rparr> in
                      case db_Exec_update env (Patreon_ClientId (client_config c')) (Tokens c') w3 of
                          (False, w4) \<Rightarrow>
                            (Some ErrDatabase, c',
                             logger ErrorLevel ''Failed to update Patreon keys in database''
                               [zap_Error ErrDatabase] w4)
                        | (True, w4) \<Rightarrow> (None, c', w4))))"

section \<open>The synchronisation cycle (cmd/app)\<close>

text \<open>
  How a call of \<open>fetchPledges\<close> ends: \<open>logger.Fatal\<close> writes its entry and exits the
  process; an aggregation error is logged and nothing is sent; otherwise the collection is
  sent on the channel.
\<close>

datatype outcome =
    Exited
  | NotSent error
  | Sent "(string, Patron) gomap"

definition fetchPledges :: "Env \<Rightarrow> Client \<Rightarrow> World \<Rightarrow> (outcome \<times> Client \<times> World) option" where
  "fetchPledges env c w =
     (let (now, w1) = time_Now env w in
      if ExpiresAt (Tokens c) < now then
        Some (Exited, c,
              logger FatalLevel ''Refresh token has already expired (expired at %s)''
                [zap_Time ''expires_at'' (ExpiresAt (Tokens c))] w1)
      else
        let (until, w2) = time_Until env (ExpiresAt (Tokens c)) w1;
            (c', w5) =
              (if until < Hour * 24 * 3 then
                 let w3 = logger InfoLevel ''Token expires in less than 3 days, refreshing''
                            [zap_Time ''expires_at'' (ExpiresAt (Tokens c))] w2;
                     (err, c', w4) = RefreshCredentials env c w3 in
                 (case err of
                    Some e \<Rightarrow> (c', logger ErrorLevel ''Failed to refresh token'' [zap_Error e] w4)
                  | None \<Rightarrow> (c', logger InfoLevel ''Tokens refreshed successfully'' [] w4))
               else (c, w2)) in
        (case FetchPledges env c' w5 of
           None \<Rightarrow> None
         | Some ((fetched, Some err), w6) \<Rightarrow>
             Some (NotSent err, c',
                   logger ErrorLevel ''Failed to fetch pledges'' [zap_Error err] w6)
         | Some ((fetched, None), w6) \<Rightarrow> Some (Sent fetched, c', w6)))"

text \<open>
  One cycle of the process: \<open>fetchPledges\<close>, and the goroutine of \<open>main\<close> that hands
  every collection received on the channel to \<open>UpdatePledges\<close>. The order in which
  \<open>UpdatePledges\<close> ranges over the received map is the parameter \<open>order\<close>.
\<close>

definition cycle :: "Env \<Rightarrow> string list \<Rightarrow> Client \<times> World \<times> Server
     \<Rightarrow> (outcome \<times> Client \<times> World \<times> Server) option" where
  "cycle env order st =
     (case st of (c, w, srv) \<Rightarrow>
        (case fetchPledges env c w of
           None \<Rightarrow> None
         | Some (Sent fetched, c', w') \<Rightarrow> Some (Sent fetched, c', w', UpdatePledges order fetched srv)
         | Some (Exited, c', w') \<Rightarrow> Some (Exited, c', w', srv)
         | Some (NotSent err, c', w') \<Rightarrow> Some (NotSent err, c', w', srv)))"

section \<open>The lookup command (internal/server)\<close>

text \<open>
  The interaction as far as \<open>handleCommand\<close> reads it. An option's value is an
  \<open>interface{}\<close> that either holds a string or does not. The user's name is that of
  \<open>data.Member.User\<close> or \<open>data.User\<close>, whichever is present.
\<close>

datatype option_value = StringValue string | OtherValue

record ApplicationCommandInteraction =
  GuildId :: uint64
  Command_Name :: string
  Options :: "(string \<times> option_value) list"
  User_Username :: string

record Embed =
  Title :: string
  Description :: string
  Url :: string
  Timestamp :: instant
  Color :: nat
  Author_Name :: string
  Fields :: "(string \<times> string) list"

datatype ResponseChannelMessage =
    Ephemeral string
  | Embeds "Embed list"

definition red :: nat where "red = 0xeb4034"
definition blue :: nat where "blue = 0x4287f5"

text \<open>
  Modelled from the spec: the helper \<open>contains\<close> is not among the sources; it is
  membership in the list of allowed guilds.
\<close>

definition contains :: "'a list \<Rightarrow> 'a \<Rightarrow> bool" where
  "contains xs x \<longleftrightarrow> x \<in> set xs"

text \<open>
  \<open>strconv.ParseUint(s, 10, 64)\<close>: a non-empty string of decimal digits, with no sign,
  whose value fits 64 bits.
\<close>

fun parse_digits :: "nat \<Rightarrow> string \<Rightarrow> nat option" where
  "parse_digits n [] = Some n"
| "parse_digits n (ch # rest) =
     (if (48 :: nat) \<le> of_char ch \<and> of_char ch \<le> (57 :: nat)
      then parse_digits (10 * n + (of_char ch - 48)) rest
      else None)"

definition ParseUint :: "string \<Rightarrow> uint64 option" where
  "ParseUint str =
     (if str = [] then None
      else case parse_digits 0 str of
             None \<Rightarrow> None
           | Some n \<Rightarrow> if n < 2 ^ 64 then Some (of_nat n) else None)"

fun strings_Join :: "string list \<Rightarrow> string \<Rightarrow> string" where
  "strings_Join [] sep = []"
| "strings_Join [x] sep = x"
| "strings_Join (x # y # rest) sep = x @ sep @ strings_Join (y # rest) sep"

text \<open>\<open>t.Unix()\<close>: whole seconds since the epoch.\<close>

definition Unix :: "instant \<Rightarrow> int" where
  "Unix t = t div Second"

definition tier_names :: "Config \<Rightarrow> uint64 list \<Rightarrow> string list" where
  "tier_names conf ts =
     map (\<lambda>tier. case Config_Tiers conf tier of
                   Some tierName \<Rightarrow> tierName
                 | None \<Rightarrow> ''Unknown (ID: '' @ sprint_uint64 tier @ '')'') ts"

definition hasInitialData :: "Server \<Rightarrow> bool" where
  "hasInitialData s \<longleftrightarrow> pledges s \<noteq> NilMap \<or> pledgesByDiscordId s \<noteq> NilMap"

definition account_found :: "Server \<Rightarrow> instant \<Rightarrow> ApplicationCommandInteraction \<Rightarrow> Patron
     \<Rightarrow> ResponseChannelMessage" where
  "account_found s now data patron =
     (let tiers = tier_names (config s) (Tiers patron);
          discord = (case DiscordId patron of
                       None \<Rightarrow> ''Not linked''
                     | Some d \<Rightarrow> ''<@'' @ sprint_uint64 d @ ''> ('' @ sprint_uint64 d @ '')'') in
      Embeds
        [\<lparr>Title = ''Account Found'',
          Description = [],
          Url = ''https://www.patreon.com/user?u='' @ sprint_uint64 (Id patron),
          Timestamp = now,
          Color = blue,
          Author_Name = User_Username data,
          Fields =
            [(''Status'', PatronStatus (Attributes patron)),
             (''Last Charge Status'', LastChargeStatus (Attributes patron)),
             (''Last Charge Date'',
                ''<t:'' @ sprint_int (Unix (LastChargeDate (Attributes patron))) @ ''>''),
             (''Join Date'',
                ''<t:'' @ sprint_int (Unix (PledgeRelationshipStart (Attributes patron))) @ ''>''),
             (''Active Tiers'', strings_Join tiers '', ''),
             (''Discord Account'', discord)]\<rparr>])"

definition not_found :: "instant \<Rightarrow> string \<Rightarrow> ResponseChannelMessage" where
  "not_found now description =
     Embeds
       [\<lparr>Title = ''Account Not Found'', Description = description, Url = [],
         Timestamp = now, Color = red, Author_Name = [], Fields = []\<rparr>]"

text \<open>
  \<open>handleCommand\<close>, with the instant that its calls of \<open>time.Now()\<close> read as a parameter.
  Its log entries are not part of the response and are left out, as is the avatar URL
  that the Discord library computes for the author.
\<close>

definition handleCommand :: "Server \<Rightarrow> instant \<Rightarrow> ApplicationCommandInteraction
     \<Rightarrow> ResponseChannelMessage" where
  "handleCommand s now data =
     (if \<not> contains (Discord_AllowedGuilds (config s)) (GuildId data) then
        Ephemeral ''This guild is not in the allowed guilds list''
      else if Command_Name data = ''lookup'' then
        (case Options data of
           [] \<Rightarrow> Ephemeral ''Missing email''
         | (argType, val) # _ \<Rightarrow>
             if argType \<noteq> ''email'' \<and> argType \<noteq> ''user'' then Ephemeral ''Missing email''
             else if \<not> hasInitialData s then
               Ephemeral ''Initial data not loaded yet, please try again in a few minutes''
             else if argType = ''user'' then
               (case val of
                  OtherValue \<Rightarrow> Ephemeral ''User was wrong type''
                | StringValue userStr \<Rightarrow>
                    (case ParseUint userStr of
                       None \<Rightarrow> Ephemeral ''Invalid user ID''
                     | Some userId \<Rightarrow>
                         (case gomap_lookup (pledgesByDiscordId s) userId of
                            None \<Rightarrow>
                              not_found now
                                (''No Patreon account with id `'' @ sprint_uint64 userId @
                                 ''` found'')
                          | Some patron \<Rightarrow> account_found s now data patron)))
             else
               (case val of
                  OtherValue \<Rightarrow> Ephemeral ''Email was wrong type''
                | StringValue email \<Rightarrow>
                    (case gomap_lookup (pledges s) email of
                       None \<Rightarrow>
                         not_found now
                           (''No Patreon account with email `'' @ email @ ''` found'')
                     | Some patron \<Rightarrow> account_found s now data patron)))
      else Ephemeral ''Unknown command'')"

section \<open>Vocabulary of the statements\<close>

text \<open>The link that the loop of \<open>FetchPledges\<close> follows, if the page has one.\<close>

definition next_link :: "PledgeResponse \<Rightarrow> string option" where
  "next_link res =
     (case Links res of None \<Rightarrow> None | Some None \<Rightarrow> None | Some (Some next) \<Rightarrow> Some next)"

text \<open>The request that \<open>FetchPage\<close> builds for a URL.\<close>

definition page_request :: "Client \<Rightarrow> string \<Rightarrow> Request" where
  "page_request c url =
     \<lparr>Method = GET, URL = url,
      Header = [(''Authorization'', ''Bearer '' @ AccessToken (Tokens c)),
                (''User-Agent'', UserAgent)]\<rparr>"

text \<open>
  The environment serves the pages \<open>ps\<close> to a client that starts at \<open>url\<close> in world
  \<open>w\<close>: the first fetch returns the first page, and every further page is what the
  fetch of the previous page's \<open>next\<close> link returns.
\<close>

fun served :: "Env \<Rightarrow> Client \<Rightarrow> string \<Rightarrow> World \<Rightarrow> PledgeResponse list \<Rightarrow> bool" where
  "served env c url w [] = True"
| "served env c url w (p # ps) =
     (case FetchPageWithTimeout env c w url of
        (Inl err, w1) \<Rightarrow> False
      | (Inr res, w1) \<Rightarrow>
          res = p \<and>
          (case ps of
             [] \<Rightarrow> True
           | _ # _ \<Rightarrow>
               (case next_link p of
                  None \<Rightarrow> False
                | Some next \<Rightarrow>
                    served env c next
                      (snd (range_Data (client_config c) (Included p) Map.empty (Data p) w1)) ps)))"

text \<open>The URLs of the fetches for a sequence of pages that starts at \<open>url\<close>.\<close>

fun page_urls :: "string \<Rightarrow> PledgeResponse list \<Rightarrow> string list" where
  "page_urls url [] = []"
| "page_urls url (p # ps) =
     url # (case next_link p of None \<Rightarrow> [] | Some next \<Rightarrow> page_urls next ps)"

text \<open>
  The patron that a member entry becomes, and the collection after a page and after a
  sequence of pages, without the log.
\<close>

definition patron_of :: "Config \<Rightarrow> IncludedResource list \<Rightarrow> Member \<Rightarrow> Patron" where
  "patron_of conf incl member =
     \<lparr>Attributes = Member_Attributes member,
      Id = Relationships_User_Data_Id member,
      Tiers = filter (\<lambda>t. Config_Tiers conf t \<noteq> None)
                (Relationships_CurrentlyEntitledTiers_Data member),
      DiscordId = parse_included None (Relationships_User_Data_Id member) incl\<rparr>"

fun merge_members :: "Config \<Rightarrow> IncludedResource list \<Rightarrow> (string \<rightharpoonup> Patron) \<Rightarrow> Member list
    \<Rightarrow> (string \<rightharpoonup> Patron)" where
  "merge_members conf incl data [] = data"
| "merge_members conf incl data (member # rest) =
     merge_members conf incl
       (if Email (Member_Attributes member) = [] then data
        else data(Email (Member_Attributes member) \<mapsto> patron_of conf incl member)) rest"

fun merge_pages :: "Config \<Rightarrow> (string \<rightharpoonup> Patron) \<Rightarrow> PledgeResponse list \<Rightarrow> (string \<rightharpoonup> Patron)" where
  "merge_pages conf data [] = data"
| "merge_pages conf data (p # ps) =
     merge_pages conf (merge_members conf (Included p) data (Data p)) ps"

text \<open>The warning that \<open>FetchPledges\<close> logs for a tier id.\<close>

definition unknown_tier_warning :: "uint64 \<Rightarrow> log_entry" where
  "unknown_tier_warning t = (WarnLevel, ''unknown tier'', [zap_Uint64 ''tier_id'' t])"

text \<open>The entries that the loop over the members of a page adds to the log.\<close>

fun members_log :: "Config \<Rightarrow> Member list \<Rightarrow> log_entry list" where
  "members_log conf [] = []"
| "members_log conf (member # rest) =
     (if Email (Member_Attributes member) = [] then
        [(DebugLevel, ''member has no email'',
          [zap_Uint64 ''patron_id'' (Relationships_User_Data_Id member)])]
      else
        map unknown_tier_warning
          (filter (\<lambda>t. Config_Tiers conf t = None)
             (Relationships_CurrentlyEntitledTiers_Data member)))
     @ members_log conf rest"

text \<open>
  The log entries of the fetches of a sequence of pages, the URL that the loop holds
  after pages that all have a \<open>next\<close> link, and the world after the fetches.
\<close>

fun pages_log :: "Config \<Rightarrow> string \<Rightarrow> PledgeResponse list \<Rightarrow> log_entry list" where
  "pages_log conf url [] = []"
| "pages_log conf url (p # ps) =
     [(DebugLevel, ''Fetching page'', [zap_String ''url'' url]),
      (DebugLevel, ''Page fetched successfully'', [zap_String ''url'' url])]
     @ members_log conf (Data p)
     @ (case next_link p of None \<Rightarrow> [] | Some next \<Rightarrow> pages_log conf next ps)"

fun url_after :: "string \<Rightarrow> PledgeResponse list \<Rightarrow> string" where
  "url_after url [] = url"
| "url_after url (p # ps) =
     (case next_link p of None \<Rightarrow> url | Some next \<Rightarrow> url_after next ps)"

definition world_after_pages :: "Client \<Rightarrow> string \<Rightarrow> PledgeResponse list \<Rightarrow> World \<Rightarrow> World" where
  "world_after_pages c url ps w =
     w\<lparr>clock_reads := clock_reads w + length ps,
       waits := waits w + length ps,
       requests := requests w @ map (page_request c) (page_urls url ps),
       log := log w @ pages_log (client_config c) url ps\<rparr>"

text \<open>The request that \<open>RefreshCredentials\<close> builds.\<close>

definition refresh_request :: "Client \<Rightarrow> Request" where
  "refresh_request c =
     \<lparr>Method = POST, URL = refresh_url c, Header = [(''User-Agent'', UserAgent)]\<rparr>"

text \<open>
  A fetch fails when the token's expiry is before the clock reading, the request cannot
  be built, the wait on the limiter fails (its context is cancelled or past its
  deadline), the transport fails, the status is not 200, or the body does not decode.
\<close>

definition fetch_failure :: "Env \<Rightarrow> Client \<Rightarrow> World \<Rightarrow> string \<Rightarrow> bool" where
  "fetch_failure env c w url \<longleftrightarrow>
     ExpiresAt (Tokens c) < Now env (clock_reads w) \<or>
     \<not> NewRequest_ok env url \<or>
     \<not> Wait_ok env (waits w) \<or>
     (case Do env (length (requests w)) (page_request c url) of
        None \<Rightarrow> True
      | Some res \<Rightarrow>
          StatusCode res \<noteq> 200 \<or>
          Option.bind (Body res) (decode_PledgeResponse env) = None)"

text \<open>What a run of \<open>fetchPledges\<close> leaves behind: its outcome, the requests and the log.\<close>

definition outcome_of :: "(outcome \<times> Client \<times> World) option \<Rightarrow> outcome option" where
  "outcome_of r = map_option fst r"

definition requests_of :: "(outcome \<times> Client \<times> World) option \<Rightarrow> Request list" where
  "requests_of r = (case r of None \<Rightarrow> [] | Some (out, c, w) \<Rightarrow> requests w)"

definition log_of :: "(outcome \<times> Client \<times> World) option \<Rightarrow> log_entry list" where
  "log_of r = (case r of None \<Rightarrow> [] | Some (out, c, w) \<Rightarrow> log w)"

definition sent_patron :: "(outcome \<times> Client \<times> World) option \<Rightarrow> string \<Rightarrow> Patron option" where
  "sent_patron r email =
     (case r of Some (Sent m, c, w) \<Rightarrow> gomap_lookup m email | _ \<Rightarrow> None)"

text \<open>The \<open>Authorization\<close> header of a request, if it has one.\<close>

definition authorization :: "Request \<Rightarrow> string option" where
  "authorization q = map_of (Header q) ''Authorization''"

text \<open>The email addresses of the member entries of a list of pages.\<close>

definition emails :: "Member list \<Rightarrow> string list" where
  "emails ms = map (\<lambda>member. Email (Member_Attributes member)) ms"

text \<open>
  The part of \<open>fetchPledges\<close> before the aggregation: \<open>None\<close> when the process exits,
  otherwise the client and the world with which \<open>FetchPledges\<close> is called.
\<close>

definition before_aggregation :: "Env \<Rightarrow> Client \<Rightarrow> World \<Rightarrow> (Client \<times> World) option" where
  "before_aggregation env c w =
     (let (now, w1) = time_Now env w in
      if ExpiresAt (Tokens c) < now then None
      else
        let (until, w2) = time_Until env (ExpiresAt (Tokens c)) w1 in
        if until < Hour * 24 * 3 then
          let w3 = logger InfoLevel ''Token expires in less than 3 days, refreshing''
                     [zap_Time ''expires_at'' (ExpiresAt (Tokens c))] w2;
              (err, c', w4) = RefreshCredentials env c w3 in
          (case err of
             Some e \<Rightarrow> Some (c', logger ErrorLevel ''Failed to refresh token'' [zap_Error e] w4)
           | None \<Rightarrow> Some (c', logger InfoLevel ''Tokens refreshed successfully'' [] w4))
        else Some (c, w2))"

text \<open>The refresh that a cycle attempts when one is due.\<close>

definition refresh_attempt :: "Env \<Rightarrow> Client \<Rightarrow> World \<Rightarrow> error option \<times> Client \<times> World" where
  "refresh_attempt env c w =
     RefreshCredentials env c
       (logger InfoLevel ''Token expires in less than 3 days, refreshing''
          [zap_Time ''expires_at'' (ExpiresAt (Tokens c))]
          (w\<lparr>clock_reads := Suc (Suc (clock_reads w))\<rparr>))"

text \<open>A sequence of publishes, each with the order of its range.\<close>

fun publish_all :: "(string list \<times> (string, Patron) gomap) list \<Rightarrow> Server \<Rightarrow> Server" where
  "publish_all [] s = s"
| "publish_all ((order, m) # rest) s = publish_all rest (UpdatePledges order m s)"

section \<open>A concrete campaign\<close>

text \<open>
  One configuration, one credential and two pages, used to run the definitions. The
  example server answers a refresh with \<open>refresh\<close>, the fetch of the second page with
  \<open>second\<close>, and any other fetch with the first page.
\<close>

definition ex_conf :: Config where
  "ex_conf =
     \<lparr>Discord_AllowedGuilds = [1], Patreon_ClientId = ''cid'',
      Patreon_ClientSecret = ''secret'', Patreon_CampaignId = 42,
      Config_Tiers = [10 \<mapsto> ''Gold'']\<rparr>"

definition ex_tokens :: Tokens where
  "ex_tokens = \<lparr>AccessToken = ''access-1'', RefreshToken = ''refresh-1'', ExpiresAt = 1000\<rparr>"

definition ex_client :: Client where
  "ex_client = \<lparr>client_config = ex_conf, Tokens = ex_tokens\<rparr>"

definition ex_world :: World where
  "ex_world =
     \<lparr>clock_reads = 0, waits = 0, requests = [], execs = 0,
      patreon_keys = [''cid'' \<mapsto> ex_tokens], log = []\<rparr>"

definition ex_member :: "string \<Rightarrow> uint64 \<Rightarrow> uint64 list \<Rightarrow> Member" where
  "ex_member email ident tiers =
     \<lparr>Member_Attributes =
        \<lparr>Email = email, PatronStatus = ''active_patron'', LastChargeStatus = ''Paid'',
         LastChargeDate = 0, PledgeRelationshipStart = 0\<rparr>,
      Relationships_User_Data_Id = ident,
      Relationships_CurrentlyEntitledTiers_Data = tiers\<rparr>"

definition ex_page1 :: PledgeResponse where
  "ex_page1 =
     \<lparr>Data = [ex_member ''a@x'' 1 [10, 99], ex_member [] 2 [10], ex_member ''c@x'' 4 [10, 98]],
      Included = [\<lparr>Included_Id = 1, SocialConnections_Discord_Id = Some 7\<rparr>],
      Links = Some (Some ''page2'')\<rparr>"

definition ex_page2 :: PledgeResponse where
  "ex_page2 =
     \<lparr>Data = [ex_member ''b@x'' 3 [], ex_member ''c@x'' 5 []], Included = [], Links = None\<rparr>"

definition ex_refreshed :: RefreshResponse where
  "ex_refreshed =
     \<lparr>Resp_AccessToken = ''access-2'', Resp_RefreshToken = ''refresh-2'', ExpiresIn = 60\<rparr>"

text \<open>An instant more than three days before the example credential expires.\<close>

definition ex_early :: instant where
  "ex_early = - (10 ^ 15)"

text \<open>A lookup command from the allowed guild, with one option.\<close>

definition ex_lookup :: "string \<Rightarrow> string \<Rightarrow> ApplicationCommandInteraction" where
  "ex_lookup argType val =
     \<lparr>GuildId = 1, Command_Name = ''lookup'', Options = [(argType, StringValue val)],
      User_Username = ''someone''\<rparr>"

definition ok_response :: "string \<Rightarrow> Response option" where
  "ok_response body = Some \<lparr>StatusCode = 200, Body = Some body\<rparr>"

definition status_response :: "int \<Rightarrow> Response option" where
  "status_response code = Some \<lparr>StatusCode = code, Body = Some []\<rparr>"

definition ex_env :: "instant \<Rightarrow> Response option \<Rightarrow> Response option \<Rightarrow> bool \<Rightarrow> Env" where
  "ex_env now refresh second exec_ok =
     \<lparr>Now = (\<lambda>k. now),
      NewRequest_ok = (\<lambda>url. True),
      Wait_ok = (\<lambda>k. True),
      Do = (\<lambda>k req. if Method req = POST then refresh
                     else if URL req = ''page2'' then second
                     else ok_response ''1''),
      Exec_ok = (\<lambda>k. exec_ok),
      decode_PledgeResponse =
        (\<lambda>body. if body = ''1'' then Some ex_page1
                 else if body = ''2'' then Some ex_page2 else None),
      decode_RefreshResponse =
        (\<lambda>body. if body = ''tokens'' then Some ex_refreshed else None)\<rparr>"

text \<open>The same server with a clock that advances by one at every reading.\<close>

definition ex_ticking :: "instant \<Rightarrow> Response option \<Rightarrow> Response option \<Rightarrow> bool \<Rightarrow> Env" where
  "ex_ticking start refresh second exec_ok =
     (ex_env start refresh second exec_ok)\<lparr>Now := (\<lambda>k. start + int k)\<rparr>"

text \<open>A campaign of one page, on which two entries share an email.\<close>

definition ex_dup_page :: PledgeResponse where
  "ex_dup_page =
     \<lparr>Data = [ex_member ''d@x'' 6 [10, 99], ex_member ''d@x'' 7 []], Included = [],
      Links = None\<rparr>"

definition ex_env_dup :: "instant \<Rightarrow> Env" where
  "ex_env_dup now =
     (ex_env now (status_response 401) (ok_response ''2'') True)
       \<lparr>decode_PledgeResponse := (\<lambda>body. if body = ''1'' then Some ex_dup_page else None)\<rparr>"

section \<open>Unfolding the example and the effects\<close>

lemmas ex_defs = ex_env_def ex_client_def ex_world_def ex_conf_def ex_tokens_def ex_page1_def ex_page2_def
  ex_member_def ok_response_def status_response_def ex_refreshed_def

lemmas run_defs = FetchPage_def FetchPageWithTimeout_def time_Now_def ratelimiter_Wait_def httpClient_Do_def
  logger_def Let_def next_link_def

section \<open>Properties of the snapshot\<close>

lemma group_by_discord_Some:
  "group_by_discord x ps d = Some p \<Longrightarrow>
     x d = Some p \<or> (p \<in> set ps \<and> DiscordId p = Some d)"
proof (induction ps arbitrary: x)
  case Nil
  then show ?case by simp
next
  case (Cons q qs)
  show ?case
  proof (cases "DiscordId q")
    case None
    with Cons.prems have "group_by_discord x qs d = Some p" by simp
    from Cons.IH [OF this] show ?thesis by auto
  next
    case (Some d')
    with Cons.prems have "group_by_discord (x(d' \<mapsto> q)) qs d = Some p" by simp
    from Cons.IH [OF this] Some show ?thesis by (auto split: if_splits)
  qed
qed

lemma group_by_discord_dom:
  "dom (group_by_discord x ps) = dom x \<union> {d. \<exists>p \<in> set ps. DiscordId p = Some d}"
  by (induction ps arbitrary: x) (auto split: option.splits)

lemma visited_values:
  "set ks = gomap_keys m \<Longrightarrow>
     set (List.map_filter (gomap_lookup m) ks) = {p. \<exists>e. gomap_lookup m e = Some p}"
  by (cases m) (force simp: List.map_filter_def dom_def image_iff)+

text \<open>
  C2. After any publish, whatever order the range visits the keys in: an entry of the
  Discord-id view under \<open>d\<close> is a patron with Discord id \<open>d\<close> that the email view holds
  too, as the very same record (so all fields agree); the Discord-id view has an entry
  for \<open>d\<close> exactly when some patron of the email view has Discord id \<open>d\<close>; and when the
  published map is keyed by email, that patron is found in the email view under its own
  email.
\<close>

theorem C2_discord_view_is_projection:
  assumes "range_order new_pledges ks"
  shows "let s' = UpdatePledges ks new_pledges s in
         pledges s' = new_pledges \<and>
         (\<forall>d p. gomap_lookup (pledgesByDiscordId s') d = Some p \<longrightarrow>
            DiscordId p = Some d \<and> (\<exists>e. gomap_lookup (pledges s') e = Some p)) \<and>
         (\<forall>d. d \<in> gomap_keys (pledgesByDiscordId s') \<longleftrightarrow>
            (\<exists>e p. gomap_lookup (pledges s') e = Some p \<and> DiscordId p = Some d)) \<and>
         (keyed_by_email new_pledges \<longrightarrow>
            (\<forall>d p. gomap_lookup (pledgesByDiscordId s') d = Some p \<longrightarrow>
               gomap_lookup (pledges s') (Email (Attributes p)) = Some p))"
proof -
  let ?vs = "List.map_filter (gomap_lookup new_pledges) ks"
  have vs: "set ?vs = {p. \<exists>e. gomap_lookup new_pledges e = Some p}"
    using assms by (simp add: range_order_def visited_values)
  have a: "DiscordId p = Some d \<and> (\<exists>e. gomap_lookup new_pledges e = Some p)"
    if "group_by_discord Map.empty ?vs d = Some p" for d p
    using group_by_discord_Some [OF that] vs by auto
  have b: "d \<in> dom (group_by_discord Map.empty ?vs) \<longleftrightarrow>
           (\<exists>e p. gomap_lookup new_pledges e = Some p \<and> DiscordId p = Some d)" for d
    unfolding group_by_discord_dom vs by auto
  have c: "gomap_lookup new_pledges (Email (Attributes p)) = Some p"
    if "keyed_by_email new_pledges" "group_by_discord Map.empty ?vs d = Some p" for d p
    using a [OF that(2)] that(1) by (auto simp: keyed_by_email_def)
  show ?thesis
    unfolding Let_def UpdatePledges_def using a b c by simp
qed

theorem C2_witness:
  "range_order (GoMap (merge_pages ex_conf Map.empty [ex_page1, ex_page2])) [''b@x'', ''a@x'', ''c@x''] \<and>
   keyed_by_email (GoMap (merge_pages ex_conf Map.empty [ex_page1, ex_page2])) \<and>
   pledges (UpdatePledges [''b@x'', ''a@x'', ''c@x'']
              (GoMap (merge_pages ex_conf Map.empty [ex_page1, ex_page2])) (NewServer ex_conf)) =
     GoMap (merge_pages ex_conf Map.empty [ex_page1, ex_page2]) \<and>
   7 \<in> gomap_keys
         (pledgesByDiscordId
            (UpdatePledges [''b@x'', ''a@x'', ''c@x'']
               (GoMap (merge_pages ex_conf Map.empty [ex_page1, ex_page2])) (NewServer ex_conf))) \<and>
   (\<exists>p. gomap_lookup
           (pledgesByDiscordId
              (UpdatePledges [''b@x'', ''a@x'', ''c@x'']
                 (GoMap (merge_pages ex_conf Map.empty [ex_page1, ex_page2])) (NewServer ex_conf)))
           7 = Some p \<and>
        DiscordId p = Some 7 \<and>
        gomap_lookup
          (pledges
             (UpdatePledges [''b@x'', ''a@x'', ''c@x'']
                (GoMap (merge_pages ex_conf Map.empty [ex_page1, ex_page2])) (NewServer ex_conf)))
          (Email (Attributes p)) = Some p)"
  (is "?A \<and> ?B \<and> ?C \<and> ?D \<and> ?E")
proof -
  let ?M = "GoMap (merge_pages ex_conf Map.empty [ex_page1, ex_page2])"
  let ?U = "UpdatePledges [''b@x'', ''a@x'', ''c@x''] ?M (NewServer ex_conf)"
  have a: ?A
    by (auto simp: range_order_def ex_defs)
  have b: ?B
    by (auto simp: keyed_by_email_def patron_of_def ex_defs split: if_splits)
  note t = C2_discord_view_is_projection [OF a, of "NewServer ex_conf", unfolded Let_def]
  have c: ?C using t by blast
  have m: "gomap_lookup ?M ''a@x'' =
             Some (patron_of ex_conf (Included ex_page1) (ex_member ''a@x'' 1 [10, 99]))"
    "DiscordId (patron_of ex_conf (Included ex_page1) (ex_member ''a@x'' 1 [10, 99])) = Some 7"
    by (simp_all add: patron_of_def ex_defs)
  have m': "\<exists>e p. gomap_lookup (pledges ?U) e = Some p \<and> DiscordId p = Some 7"
    unfolding c using m by blast
  have d: ?D using t m' by blast
  then obtain p where p: "gomap_lookup (pledgesByDiscordId ?U) 7 = Some p"
    by (cases "pledgesByDiscordId ?U") auto
  from t p b have "DiscordId p = Some 7"
    "gomap_lookup (pledges ?U) (Email (Attributes p)) = Some p"
    by blast+
  with p have e: ?E by blast
  show ?thesis
    by (intro conjI) (rule a b c d e)+
qed

section \<open>The effects of the member loop and of a page fetch\<close>

lemma parse_tiers_fst:
  "fst (parse_tiers conf acc ts w) = acc @ filter (\<lambda>t. Config_Tiers conf t \<noteq> None) ts"
  by (induction ts arbitrary: acc w) (auto split: option.splits)

lemma parse_tiers_snd:
  "snd (parse_tiers conf acc ts w) =
     w\<lparr>log := log w @ map unknown_tier_warning (filter (\<lambda>t. Config_Tiers conf t = None) ts)\<rparr>"
  by (induction ts arbitrary: acc w) (auto split: option.splits simp: logger_def unknown_tier_warning_def)

lemma range_Data_fst:
  "fst (range_Data conf incl data ms w) = merge_members conf incl data ms"
  by (induction ms arbitrary: data w)
     (simp_all add: Let_def patron_of_def case_prod_beta parse_tiers_fst)

lemma range_Data_snd:
  "snd (range_Data conf incl data ms w) = w\<lparr>log := log w @ members_log conf ms\<rparr>"
  by (induction ms arbitrary: data w)
     (simp_all add: Let_def case_prod_beta parse_tiers_snd logger_def)

lemma range_Data_eq:
  "range_Data conf incl data ms w =
     (merge_members conf incl data ms, w\<lparr>log := log w @ members_log conf ms\<rparr>)"
  by (simp add: prod_eq_iff range_Data_fst range_Data_snd)


lemma FetchPage_expired:
  "ExpiresAt (Tokens c) < Now env (clock_reads w) \<Longrightarrow>
   FetchPage env c w url =
     (Inl (ErrTokenExpired (ExpiresAt (Tokens c))),
      w\<lparr>clock_reads := Suc (clock_reads w),
        log := log w @ [(DebugLevel, ''Fetching page'', [zap_String ''url'' url])]\<rparr>)"
  by (simp add: FetchPage_def Let_def time_Now_def logger_def)

lemma FetchPage_Inr:
  "FetchPage env c w url = (Inr p, w') \<Longrightarrow>
   w' = w\<lparr>clock_reads := Suc (clock_reads w), waits := Suc (waits w),
          requests := requests w @ [page_request c url],
          log := log w @ [(DebugLevel, ''Fetching page'', [zap_String ''url'' url]),
                          (DebugLevel, ''Page fetched successfully'', [zap_String ''url'' url])]\<rparr>"
  by (auto simp: FetchPage_def Let_def time_Now_def logger_def ratelimiter_Wait_def
        httpClient_Do_def page_request_def
      split: if_splits option.splits prod.splits)

lemma FetchPage_frame:
  "FetchPage env c w url = (r, w') \<Longrightarrow>
   patreon_keys w' = patreon_keys w \<and> execs w' = execs w \<and>
   (requests w' = requests w \<or> requests w' = requests w @ [page_request c url])"
  by (auto simp: FetchPage_def Let_def time_Now_def logger_def ratelimiter_Wait_def
        httpClient_Do_def page_request_def
      split: if_splits option.splits prod.splits)


lemma FetchPage_sends:
  assumes "\<not> ExpiresAt (Tokens c) < Now env (clock_reads w)"
    and "NewRequest_ok env url" and "Wait_ok env (waits w)"
  shows "requests (snd (FetchPage env c w url)) = requests w @ [page_request c url]"
  using assms
  unfolding FetchPage_def Let_def time_Now_def ratelimiter_Wait_def httpClient_Do_def
    logger_def page_request_def
  by (auto split: option.splits)

lemma next_link_None: "next_link p = None \<Longrightarrow> Links p = None \<or> Links p = Some None"
  by (auto simp: next_link_def split: option.splits)

lemma next_link_Some: "next_link p = Some u \<Longrightarrow> Links p = Some (Some u)"
  by (auto simp: next_link_def split: option.splits)

lemma loop_step_Inl:
  "FetchPage env c w url = (Inl err, w') \<Longrightarrow>
   FetchPledges_loop env c url data w = Some ((NilMap, Some err), w')"
  by (subst FetchPledges_loop.simps) (simp add: FetchPageWithTimeout_def)

lemma loop_step_last:
  assumes "FetchPage env c w url = (Inr p, w1)" "next_link p = None"
  shows "FetchPledges_loop env c url data w =
           Some ((GoMap (merge_members (client_config c) (Included p) data (Data p)), None),
                 w1\<lparr>log := log w1 @ members_log (client_config c) (Data p)\<rparr>)"
  using next_link_None [OF assms(2)] assms(1)
  by (subst FetchPledges_loop.simps) (auto simp: FetchPageWithTimeout_def range_Data_eq)

lemma loop_step_next:
  assumes "FetchPage env c w url = (Inr p, w1)" "next_link p = Some u"
  shows "FetchPledges_loop env c url data w =
           FetchPledges_loop env c u (merge_members (client_config c) (Included p) data (Data p))
             (w1\<lparr>log := log w1 @ members_log (client_config c) (Data p)\<rparr>)"
  using next_link_Some [OF assms(2)] assms(1)
  by (subst FetchPledges_loop.simps) (simp add: FetchPageWithTimeout_def range_Data_eq)

lemma served_Cons_fetch:
  "served env c url w (p # ps) \<Longrightarrow> \<exists>w1. FetchPage env c w url = (Inr p, w1)"
  by (auto simp: FetchPageWithTimeout_def split: prod.splits sum.splits)

lemma served_Cons_rest:
  assumes "served env c url w (p # ps)" "ps \<noteq> []" "FetchPage env c w url = (Inr p, w1)"
  shows "\<exists>u. next_link p = Some u \<and>
             served env c u (w1\<lparr>log := log w1 @ members_log (client_config c) (Data p)\<rparr>) ps"
  using assms
  by (cases ps) (auto simp: FetchPageWithTimeout_def range_Data_snd split: option.splits)

lemma world_after_step:
  assumes "FetchPage env c w url = (Inr p, w1)" "next_link p = Some u"
  shows "world_after_pages c u ps (w1\<lparr>log := log w1 @ members_log (client_config c) (Data p)\<rparr>)
           = world_after_pages c url (p # ps) w"
  using assms(2) unfolding FetchPage_Inr [OF assms(1)] world_after_pages_def by simp

lemma world_after_last:
  assumes "FetchPage env c w url = (Inr p, w1)" "next_link p = None"
  shows "w1\<lparr>log := log w1 @ members_log (client_config c) (Data p)\<rparr>
           = world_after_pages c url [p] w"
  using assms(2) unfolding FetchPage_Inr [OF assms(1)] world_after_pages_def by simp

lemma loop_served:
  "served env c url w ps \<Longrightarrow> ps \<noteq> [] \<Longrightarrow> next_link (last ps) = None \<Longrightarrow>
   FetchPledges_loop env c url data w =
     Some ((GoMap (merge_pages (client_config c) data ps), None), world_after_pages c url ps w)"
proof (induction ps arbitrary: url data w)
  case Nil
  then show ?case by simp
next
  case (Cons p ps)
  from served_Cons_fetch [OF Cons.prems(1)]
  obtain w1 where f: "FetchPage env c w url = (Inr p, w1)" by blast
  show ?case
  proof (cases "ps = []")
    case True
    with Cons.prems(3) have n: "next_link p = None" by simp
    show ?thesis
      using loop_step_last [OF f n, of data] world_after_last [OF f n] True by simp
  next
    case False
    from served_Cons_rest [OF Cons.prems(1) False f]
    obtain u where u: "next_link p = Some u"
      and s: "served env c u (w1\<lparr>log := log w1 @ members_log (client_config c) (Data p)\<rparr>) ps"
      by blast
    from Cons.prems(3) False have l: "next_link (last ps) = None" by simp
    show ?thesis
      using Cons.IH [OF s False l] loop_step_next [OF f u, of data] world_after_step [OF f u, of ps]
      by simp
  qed
qed

lemma loop_failing_page:
  "served env c url w ps \<Longrightarrow> list_all (\<lambda>p. next_link p \<noteq> None) ps \<Longrightarrow>
   FetchPage env c (world_after_pages c url ps w) (url_after url ps) = (Inl err, w') \<Longrightarrow>
   FetchPledges_loop env c url data w = Some ((NilMap, Some err), w')"
proof (induction ps arbitrary: url data w)
  case Nil
  then show ?case by (simp add: world_after_pages_def loop_step_Inl)
next
  case (Cons p ps)
  from served_Cons_fetch [OF Cons.prems(1)]
  obtain w1 where f: "FetchPage env c w url = (Inr p, w1)" by blast
  from Cons.prems(2) obtain u where u: "next_link p = Some u" and a: "list_all (\<lambda>p. next_link p \<noteq> None) ps"
    by auto
  let ?w2 = "w1\<lparr>log := log w1 @ members_log (client_config c) (Data p)\<rparr>"
  have s: "served env c u ?w2 ps"
  proof (cases "ps = []")
    case True
    then show ?thesis by simp
  next
    case False
    from served_Cons_rest [OF Cons.prems(1) False f] u show ?thesis by simp
  qed
  have e: "FetchPage env c (world_after_pages c u ps ?w2) (url_after u ps) = (Inl err, w')"
    using Cons.prems(3) u world_after_step [OF f u, of ps] by simp
  show ?case
    using Cons.IH [OF s a e] loop_step_next [OF f u, of data] by simp
qed

section \<open>A failed fetch publishes nothing\<close>

lemma fetch_failure_Inl:
  "fetch_failure env c w url \<Longrightarrow> \<exists>err w'. FetchPage env c w url = (Inl err, w')"
  unfolding fetch_failure_def FetchPage_def Let_def time_Now_def ratelimiter_Wait_def
    httpClient_Do_def logger_def page_request_def
  by (auto split: option.splits)

lemma Inl_fetch_failure:
  "FetchPage env c w url = (Inl err, w') \<Longrightarrow> fetch_failure env c w url"
  unfolding fetch_failure_def FetchPage_def Let_def time_Now_def ratelimiter_Wait_def
    httpClient_Do_def logger_def page_request_def
  by (auto split: option.splits if_splits)

lemma fetchPledges_unfold:
  "fetchPledges env c w =
     (case before_aggregation env c w of
        None \<Rightarrow>
          Some (Exited, c,
                logger FatalLevel ''Refresh token has already expired (expired at %s)''
                  [zap_Time ''expires_at'' (ExpiresAt (Tokens c))]
                  (w\<lparr>clock_reads := Suc (clock_reads w)\<rparr>))
      | Some (c', w5) \<Rightarrow>
          (case FetchPledges env c' w5 of
             None \<Rightarrow> None
           | Some ((fetched, Some err), w6) \<Rightarrow>
               Some (NotSent err, c',
                     logger ErrorLevel ''Failed to fetch pledges'' [zap_Error err] w6)
           | Some ((fetched, None), w6) \<Rightarrow> Some (Sent fetched, c', w6)))"
  unfolding fetchPledges_def before_aggregation_def Let_def time_Now_def
  by (simp split: prod.splits option.splits)

lemma cycle_not_sent:
  "fetchPledges env c w = Some (NotSent err, c', w') \<Longrightarrow>
   cycle env order (c, w, srv) = Some (NotSent err, c', w', srv)"
  by (simp add: cycle_def)

text \<open>
  C1. When the cycle reaches the aggregation, the pages \<open>ps\<close> are fetched one after the
  other and the fetch that follows them fails, for any of the reasons a fetch can fail,
  then \<open>FetchPledges\<close> returns \<open>(nil, err)\<close>, the cycle sends nothing, and the server
  is the one from before the cycle, with both of its views.
\<close>

theorem C1_failed_page_publishes_nothing:
  assumes "before_aggregation env c w = Some (c1, w1)"
    and "served env c1 (members_url (client_config c1)) w1 ps"
    and "list_all (\<lambda>p. next_link p \<noteq> None) ps"
    and "fetch_failure env c1
           (world_after_pages c1 (members_url (client_config c1)) ps w1)
           (url_after (members_url (client_config c1)) ps)"
  shows "\<exists>err w2.
           FetchPledges env c1 w1 = Some ((NilMap, Some err), w2) \<and>
           cycle env order (c, w, srv) =
             Some (NotSent err, c1,
                   logger ErrorLevel ''Failed to fetch pledges'' [zap_Error err] w2, srv)"
proof -
  from fetch_failure_Inl [OF assms(4)] obtain err w2 where
    f: "FetchPage env c1 (world_after_pages c1 (members_url (client_config c1)) ps w1)
          (url_after (members_url (client_config c1)) ps) = (Inl err, w2)"
    by blast
  have a: "FetchPledges env c1 w1 = Some ((NilMap, Some err), w2)"
    unfolding FetchPledges_def by (rule loop_failing_page [OF assms(2) assms(3) f])
  have "fetchPledges env c w =
          Some (NotSent err, c1, logger ErrorLevel ''Failed to fetch pledges'' [zap_Error err] w2)"
    by (simp add: fetchPledges_unfold assms(1) a)
  from cycle_not_sent [OF this] a show ?thesis by blast
qed


theorem C1_witness:
  "before_aggregation (ex_env ex_early (status_response 401) (status_response 500) True)
     ex_client ex_world = Some (ex_client, ex_world\<lparr>clock_reads := 2\<rparr>) \<and>
   served (ex_env ex_early (status_response 401) (status_response 500) True) ex_client
     (members_url (client_config ex_client)) (ex_world\<lparr>clock_reads := 2\<rparr>) [ex_page1] \<and>
   list_all (\<lambda>p. next_link p \<noteq> None) [ex_page1] \<and>
   fetch_failure (ex_env ex_early (status_response 401) (status_response 500) True) ex_client
     (world_after_pages ex_client (members_url (client_config ex_client)) [ex_page1]
        (ex_world\<lparr>clock_reads := 2\<rparr>))
     (url_after (members_url (client_config ex_client)) [ex_page1]) \<and>
   (\<exists>err w2.
      FetchPledges (ex_env ex_early (status_response 401) (status_response 500) True)
        ex_client (ex_world\<lparr>clock_reads := 2\<rparr>) = Some ((NilMap, Some err), w2) \<and>
      cycle (ex_env ex_early (status_response 401) (status_response 500) True) []
        (ex_client, ex_world, NewServer ex_conf) =
        Some (NotSent err, ex_client,
              logger ErrorLevel ''Failed to fetch pledges'' [zap_Error err] w2,
              NewServer ex_conf))"
  (is "?A \<and> ?B \<and> ?C \<and> ?D \<and> ?E")
proof -
  have a: ?A
    by (simp add: before_aggregation_def time_Until_def time_Sub_def minDuration_def
          maxDuration_def Hour_def Second_def ex_early_def ex_defs run_defs)
  have b: ?B
    by (simp add: ex_early_def ex_defs run_defs members_url_def)
  have c: ?C
    by (simp add: ex_defs next_link_def)
  have d: ?D
    by (simp add: fetch_failure_def world_after_pages_def page_request_def ex_early_def ex_defs
          next_link_def)
  from C1_failed_page_publishes_nothing [OF a b c d] a b c d show ?thesis by blast
qed

section \<open>Pagination\<close>

lemma served_page_urls:
  "served env c url w ps \<Longrightarrow> ps \<noteq> [] \<Longrightarrow>
   page_urls url ps = url # List.map_filter next_link (butlast ps)"
proof (induction ps arbitrary: url w)
  case Nil
  then show ?case by simp
next
  case (Cons p ps)
  show ?case
  proof (cases "ps = []")
    case True
    then show ?thesis by (simp add: List.map_filter_simps split: option.splits)
  next
    case False
    from served_Cons_fetch [OF Cons.prems(1)]
    obtain w1 where f: "FetchPage env c w url = (Inr p, w1)" by blast
    from served_Cons_rest [OF Cons.prems(1) False f]
    obtain u where u: "next_link p = Some u"
      and s: "served env c u (w1\<lparr>log := log w1 @ members_log (client_config c) (Data p)\<rparr>) ps"
      by blast
    from Cons.IH [OF s False] u False show ?thesis
      by (simp add: List.map_filter_simps)
  qed
qed

lemma served_page_urls_length:
  "served env c url w ps \<Longrightarrow> length (page_urls url ps) = length ps"
proof (induction ps arbitrary: url w)
  case Nil
  then show ?case by simp
next
  case (Cons p ps)
  show ?case
  proof (cases "ps = []")
    case True
    then show ?thesis by (simp split: option.splits)
  next
    case False
    from served_Cons_fetch [OF Cons.prems(1)]
    obtain w1 where f: "FetchPage env c w url = (Inr p, w1)" by blast
    from served_Cons_rest [OF Cons.prems(1) False f]
    obtain u where u: "next_link p = Some u"
      and s: "served env c u (w1\<lparr>log := log w1 @ members_log (client_config c) (Data p)\<rparr>) ps"
      by blast
    from Cons.IH [OF s] u show ?thesis by simp
  qed
qed

text \<open>
  C9. When the environment serves the pages \<open>ps\<close>, of which the last has no \<open>next\<close>
  link, \<open>FetchPledges\<close> returns, with the collection merged from all the pages. The
  requests it has sent are one for each page: the first to the URL of the members of the
  campaign, each further one to the \<open>next\<close> link of the page before it.
\<close>

theorem C9_pagination_terminates:
  assumes "served env c (members_url (client_config c)) w ps"
    and "ps \<noteq> []"
    and "next_link (last ps) = None"
  shows "\<exists>w'. FetchPledges env c w =
                 Some ((GoMap (merge_pages (client_config c) Map.empty ps), None), w') \<and>
              requests w' =
                requests w @
                map (page_request c)
                  (members_url (client_config c) # List.map_filter next_link (butlast ps)) \<and>
              length (requests w') = length (requests w) + length ps"
proof -
  let ?url = "members_url (client_config c)"
  let ?w' = "world_after_pages c ?url ps w"
  have u: "page_urls ?url ps = ?url # List.map_filter next_link (butlast ps)"
    by (rule served_page_urls [OF assms(1) assms(2)])
  have n: "length (page_urls ?url ps) = length ps"
    by (rule served_page_urls_length [OF assms(1)])
  have r: "requests ?w' = requests w @ map (page_request c) (page_urls ?url ps)"
    by (simp add: world_after_pages_def)
  have "FetchPledges env c w =
          Some ((GoMap (merge_pages (client_config c) Map.empty ps), None), ?w')"
    unfolding FetchPledges_def by (rule loop_served [OF assms])
  moreover have "requests ?w' = requests w @ map (page_request c) (?url # List.map_filter next_link (butlast ps))"
    using r u by simp
  moreover have "length (requests ?w') = length (requests w) + length ps"
    using r n by simp
  ultimately show ?thesis by blast
qed

theorem C9_witness:
  "served (ex_env 500 (status_response 401) (ok_response ''2'') True) ex_client
     (members_url (client_config ex_client)) ex_world [ex_page1, ex_page2] \<and>
   [ex_page1, ex_page2] \<noteq> [] \<and>
   next_link (last [ex_page1, ex_page2]) = None \<and>
   (\<exists>w'. FetchPledges (ex_env 500 (status_response 401) (ok_response ''2'') True) ex_client ex_world =
            Some ((GoMap (merge_pages (client_config ex_client) Map.empty [ex_page1, ex_page2]), None), w') \<and>
         requests w' =
           requests ex_world @
           map (page_request ex_client)
             (members_url (client_config ex_client) #
              List.map_filter next_link (butlast [ex_page1, ex_page2])) \<and>
         length (requests w') = length (requests ex_world) + length [ex_page1, ex_page2])"
  (is "?A \<and> ?B \<and> ?C \<and> ?D")
proof -
  have a: ?A
    by (simp add: ex_defs run_defs members_url_def)
  have b: ?B by simp
  have c: ?C
    by (simp add: ex_defs next_link_def)
  from C9_pagination_terminates [OF a b c] a b c show ?thesis by blast
qed


section \<open>What a successful aggregation returns\<close>

lemma merge_members_keyed:
  "\<forall>e p. data e = Some p \<longrightarrow> e \<noteq> [] \<and> Email (Attributes p) = e \<Longrightarrow>
   merge_members conf incl data ms e = Some p \<Longrightarrow> e \<noteq> [] \<and> Email (Attributes p) = e"
proof (induction ms arbitrary: data)
  case Nil
  then show ?case by simp
next
  case (Cons m ms)
  let ?data' = "if Email (Member_Attributes m) = [] then data
                else data(Email (Member_Attributes m) \<mapsto> patron_of conf incl m)"
  have "\<forall>e p. ?data' e = Some p \<longrightarrow> e \<noteq> [] \<and> Email (Attributes p) = e"
    using Cons.prems(1) by (auto simp: patron_of_def)
  moreover have "merge_members conf incl ?data' ms e = Some p"
    using Cons.prems(2) by simp
  ultimately show ?case by (rule Cons.IH)
qed

lemma loop_success:
  assumes "FetchPledges_loop env c url data w = Some r"
  shows "fst r = (m, None) \<longrightarrow>
         (\<forall>e p. data e = Some p \<longrightarrow> e \<noteq> [] \<and> Email (Attributes p) = e) \<longrightarrow>
         (\<exists>d. m = GoMap d \<and> (\<forall>e p. d e = Some p \<longrightarrow> e \<noteq> [] \<and> Email (Attributes p) = e))"
proof (rule FetchPledges_loop.raw_induct
    [where P = "\<lambda>env c url data w r. fst r = (m, None) \<longrightarrow>
         (\<forall>e p. data e = Some p \<longrightarrow> e \<noteq> [] \<and> Email (Attributes p) = e) \<longrightarrow>
         (\<exists>d. m = GoMap d \<and> (\<forall>e p. d e = Some p \<longrightarrow> e \<noteq> [] \<and> Email (Attributes p) = e))",
     OF _ assms])
  fix loop env c url data w r
  assume IH: "\<And>env c url data w y. loop env c url data w = Some y \<Longrightarrow>
         fst y = (m, None) \<longrightarrow>
         (\<forall>e p. data e = Some p \<longrightarrow> e \<noteq> [] \<and> Email (Attributes p) = e) \<longrightarrow>
         (\<exists>d. m = GoMap d \<and> (\<forall>e p. d e = Some p \<longrightarrow> e \<noteq> [] \<and> Email (Attributes p) = e))"
    and body: "(case FetchPageWithTimeout env c w url of
        (Inl err, w1) \<Rightarrow> Some ((NilMap, Some err), w1)
      | (Inr res, w1) \<Rightarrow>
          (case range_Data (client_config c) (Included res) data (Data res) w1 of
             (data', w2) \<Rightarrow>
               (case Links res of
                  None \<Rightarrow> Some ((GoMap data', None), w2)
                | Some None \<Rightarrow> Some ((GoMap data', None), w2)
                | Some (Some next) \<Rightarrow> loop env c next data' w2))) = Some r"
  show "fst r = (m, None) \<longrightarrow>
         (\<forall>e p. data e = Some p \<longrightarrow> e \<noteq> [] \<and> Email (Attributes p) = e) \<longrightarrow>
         (\<exists>d. m = GoMap d \<and> (\<forall>e p. d e = Some p \<longrightarrow> e \<noteq> [] \<and> Email (Attributes p) = e))"
  proof (intro impI)
    assume r: "fst r = (m, None)"
      and inv: "\<forall>e p. data e = Some p \<longrightarrow> e \<noteq> [] \<and> Email (Attributes p) = e"
    obtain res w1 where f: "FetchPageWithTimeout env c w url = (Inr res, w1)"
      using body r by (cases "FetchPageWithTimeout env c w url") (auto split: sum.splits)
    let ?d = "merge_members (client_config c) (Included res) data (Data res)"
    let ?w2 = "w1\<lparr>log := log w1 @ members_log (client_config c) (Data res)\<rparr>"
    have inv': "\<forall>e p. ?d e = Some p \<longrightarrow> e \<noteq> [] \<and> Email (Attributes p) = e"
      using merge_members_keyed [OF inv] by blast
    show "\<exists>d. m = GoMap d \<and> (\<forall>e p. d e = Some p \<longrightarrow> e \<noteq> [] \<and> Email (Attributes p) = e)"
    proof (cases "next_link res")
      case None
      from next_link_None [OF this] body f r have "m = GoMap ?d"
        by (auto simp: range_Data_eq)
      with inv' show ?thesis by blast
    next
      case (Some u)
      from next_link_Some [OF this] body f have "loop env c u ?d ?w2 = Some r"
        by (simp add: range_Data_eq)
      from IH [OF this] r inv' show ?thesis by blast
    qed
  qed
qed

lemma FetchPledges_success:
  assumes "FetchPledges env c w = Some ((m, None), w')"
  shows "\<exists>d. m = GoMap d \<and> (\<forall>e p. d e = Some p \<longrightarrow> e \<noteq> [] \<and> Email (Attributes p) = e)"
  using loop_success [OF assms [unfolded FetchPledges_def], of m] by simp

lemma cycle_sent:
  assumes "cycle env order (c, w, srv) = Some (Sent m, c', w', srv')"
  shows "srv' = UpdatePledges order m srv \<and>
         (\<exists>c1 w1. before_aggregation env c w = Some (c1, w1) \<and>
                  FetchPledges env c1 w1 = Some ((m, None), w'))"
proof -
  from assms have f: "fetchPledges env c w = Some (Sent m, c', w')"
    and s: "srv' = UpdatePledges order m srv"
    by (auto simp: cycle_def split: option.splits outcome.splits)
  from f have "\<exists>c1 w1. before_aggregation env c w = Some (c1, w1) \<and>
                 FetchPledges env c1 w1 = Some ((m, None), w')"
    unfolding fetchPledges_unfold by (auto split: option.splits)
  with s show ?thesis by blast
qed

lemma UpdatePledges_discord_entry:
  "gomap_lookup (pledgesByDiscordId (UpdatePledges order m s)) d = Some p \<Longrightarrow>
   \<exists>e. gomap_lookup m e = Some p"
  using group_by_discord_Some [of Map.empty "List.map_filter (gomap_lookup m) order" d p]
  by (auto simp: UpdatePledges_def List.map_filter_def)

text \<open>
  C8. The step of the loop over a page's members leaves the collection as it is at an
  entry with an empty email. So in every collection that a cycle sends, whatever the
  pages were, no patron is stored under the empty email and every patron is stored under
  its own, non-empty email; the same holds of the two views of the server after the
  publish.
\<close>

theorem C8_empty_email_never_published:
  "(Email (Member_Attributes member) = [] \<longrightarrow>
      fst (range_Data conf incl data (member # rest) w0) =
      fst (range_Data conf incl data rest w0)) \<and>
   (cycle env order (c, w, srv) = Some (Sent m, c', w', srv') \<longrightarrow>
      gomap_lookup m [] = None \<and>
      (\<forall>e p. gomap_lookup m e = Some p \<longrightarrow> e \<noteq> [] \<and> Email (Attributes p) = e) \<and>
      pledges srv' = m \<and>
      (\<forall>d p. gomap_lookup (pledgesByDiscordId srv') d = Some p \<longrightarrow>
         Email (Attributes p) \<noteq> []))"
proof (intro conjI impI)
  assume "Email (Member_Attributes member) = []"
  then show "fst (range_Data conf incl data (member # rest) w0) =
             fst (range_Data conf incl data rest w0)"
    by (simp add: range_Data_fst)
next
  assume a: "cycle env order (c, w, srv) = Some (Sent m, c', w', srv')"
  from cycle_sent [OF a] obtain c1 w1 where
    s: "srv' = UpdatePledges order m srv" and
    f: "FetchPledges env c1 w1 = Some ((m, None), w')"
    by blast
  from FetchPledges_success [OF f] obtain d where
    d: "m = GoMap d" and
    k: "\<forall>e p. d e = Some p \<longrightarrow> e \<noteq> [] \<and> Email (Attributes p) = e"
    by blast
  from d k show "gomap_lookup m [] = None"
    by (cases "d []") auto
  from d k show "\<forall>e p. gomap_lookup m e = Some p \<longrightarrow> e \<noteq> [] \<and> Email (Attributes p) = e"
    by simp
  from s show "pledges srv' = m"
    by (simp add: UpdatePledges_def)
  show "\<forall>d p. gomap_lookup (pledgesByDiscordId srv') d = Some p \<longrightarrow>
          Email (Attributes p) \<noteq> []"
  proof (intro allI impI)
    fix i p
    assume "gomap_lookup (pledgesByDiscordId srv') i = Some p"
    with s UpdatePledges_discord_entry obtain e where "gomap_lookup m e = Some p"
      by blast
    with d k show "Email (Attributes p) \<noteq> []" by auto
  qed
qed

lemma ex_before_aggregation:
  "before_aggregation (ex_env ex_early r s x) ex_client ex_world =
     Some (ex_client, ex_world\<lparr>clock_reads := 2\<rparr>)"
  by (simp add: before_aggregation_def time_Until_def time_Sub_def minDuration_def
        maxDuration_def Hour_def Second_def ex_early_def ex_defs run_defs)

lemma ex_served:
  "served (ex_env now r (ok_response ''2'') x) ex_client (members_url (client_config ex_client))
     (ex_world\<lparr>clock_reads := k\<rparr>) [ex_page1, ex_page2] \<longleftrightarrow> now \<le> 1000"
  by (simp add: ex_defs run_defs members_url_def)

lemma ex_cycle:
  "cycle (ex_env ex_early r (ok_response ''2'') x) order (ex_client, ex_world, srv) =
     Some (Sent (GoMap (merge_pages ex_conf Map.empty [ex_page1, ex_page2])), ex_client,
           world_after_pages ex_client (members_url ex_conf) [ex_page1, ex_page2]
             (ex_world\<lparr>clock_reads := 2\<rparr>),
           UpdatePledges order (GoMap (merge_pages ex_conf Map.empty [ex_page1, ex_page2])) srv)"
proof -
  have c: "client_config ex_client = ex_conf"
    by (simp add: ex_client_def)
  have s: "served (ex_env ex_early r (ok_response ''2'') x) ex_client (members_url ex_conf)
             (ex_world\<lparr>clock_reads := 2\<rparr>) [ex_page1, ex_page2]"
    using ex_served [of ex_early r x 2] by (simp add: c ex_early_def)
  have l: "next_link (last [ex_page1, ex_page2]) = None"
    by (simp add: ex_defs next_link_def)
  have "FetchPledges (ex_env ex_early r (ok_response ''2'') x) ex_client
          (ex_world\<lparr>clock_reads := 2\<rparr>) =
        Some ((GoMap (merge_pages ex_conf Map.empty [ex_page1, ex_page2]), None),
              world_after_pages ex_client (members_url ex_conf) [ex_page1, ex_page2]
                (ex_world\<lparr>clock_reads := 2\<rparr>))"
    unfolding FetchPledges_def c
    using loop_served [OF s _ l, of Map.empty] by (simp add: c)
  then show ?thesis
    by (simp add: cycle_def fetchPledges_unfold ex_before_aggregation)
qed

theorem C8_witness:
  "Email (Member_Attributes (ex_member [] 2 [10])) = [] \<and>
   fst (range_Data ex_conf [] Map.empty [ex_member [] 2 [10]] ex_world) = Map.empty \<and>
   cycle (ex_env ex_early (status_response 401) (ok_response ''2'') True) [] (ex_client, ex_world, NewServer ex_conf) =
     Some (Sent (GoMap (merge_pages ex_conf Map.empty [ex_page1, ex_page2])), ex_client,
           world_after_pages ex_client (members_url ex_conf) [ex_page1, ex_page2]
             (ex_world\<lparr>clock_reads := 2\<rparr>),
           UpdatePledges [] (GoMap (merge_pages ex_conf Map.empty [ex_page1, ex_page2]))
             (NewServer ex_conf)) \<and>
   gomap_lookup (GoMap (merge_pages ex_conf Map.empty [ex_page1, ex_page2])) [] = None \<and>
   pledges (UpdatePledges [] (GoMap (merge_pages ex_conf Map.empty [ex_page1, ex_page2]))
              (NewServer ex_conf)) =
     GoMap (merge_pages ex_conf Map.empty [ex_page1, ex_page2])"
  (is "?A \<and> ?B \<and> ?C \<and> ?D \<and> ?E")
proof -
  have a: ?A by (simp add: ex_member_def)
  have c: ?C by (rule ex_cycle)
  from C8_empty_email_never_published
         [where member = "ex_member [] 2 [10]" and conf = ex_conf and incl = "[]"
            and data = Map.empty and rest = "[]" and ?w0.0 = ex_world
            and env = "ex_env ex_early (status_response 401) (ok_response ''2'') True"
            and order = "[]" and c = ex_client and w = ex_world and srv = "NewServer ex_conf"
            and m = "GoMap (merge_pages ex_conf Map.empty [ex_page1, ex_page2])"
            and c' = ex_client
            and w' = "world_after_pages ex_client (members_url ex_conf) [ex_page1, ex_page2]
                       (ex_world\<lparr>clock_reads := 2\<rparr>)"
            and srv' = "UpdatePledges [] (GoMap (merge_pages ex_conf Map.empty [ex_page1, ex_page2]))
                         (NewServer ex_conf)"]
    a c
  show ?thesis by simp
qed

section \<open>The expiry checks\<close>

lemma before_aggregation_expired:
  "ExpiresAt (Tokens c) < Now env (clock_reads w) \<Longrightarrow> before_aggregation env c w = None"
  by (simp add: before_aggregation_def time_Now_def)

lemma before_aggregation_not_expired:
  "\<not> ExpiresAt (Tokens c) < Now env (clock_reads w) \<Longrightarrow> before_aggregation env c w \<noteq> None"
  by (auto simp: before_aggregation_def time_Now_def time_Until_def Let_def
      split: prod.splits option.splits)

lemma fetchPledges_not_exited:
  assumes "\<not> ExpiresAt (Tokens c) < Now env (clock_reads w)"
  shows "outcome_of (fetchPledges env c w) \<noteq> Some Exited"
proof -
  from before_aggregation_not_expired [OF assms] obtain c' w5 where
    "before_aggregation env c w = Some (c', w5)" by auto
  then show ?thesis
    by (auto simp: fetchPledges_unfold outcome_of_def split: option.splits)
qed

lemma FetchPage_not_expired:
  "\<not> ExpiresAt (Tokens c) < Now env (clock_reads w) \<Longrightarrow>
   fst (FetchPage env c w url) \<noteq> Inl (ErrTokenExpired t)"
  unfolding FetchPage_def Let_def time_Now_def ratelimiter_Wait_def httpClient_Do_def logger_def
  by (auto split: option.splits)

text \<open>
  C3, as the claim states it, fails where the clock reads exactly the instant of expiry:
  \<open>Before\<close> is strict, so the cycle does not exit. With a clock that advances at
  every reading and a refresh that succeeds, the cycle goes on to send two requests to
  the members endpoint.
\<close>

theorem C3_counterexample:
  "ExpiresAt (Tokens ex_client) \<le>
     Now (ex_ticking 1000 (ok_response ''tokens'') (ok_response ''2'') True) (clock_reads ex_world) \<and>
   outcome_of (fetchPledges (ex_ticking 1000 (ok_response ''tokens'') (ok_response ''2'') True)
                 ex_client ex_world) \<noteq> Some Exited \<and>
   map Method (requests_of (fetchPledges (ex_ticking 1000 (ok_response ''tokens'') (ok_response ''2'') True)
                              ex_client ex_world)) = [POST, GET, GET]"
  by (simp add: outcome_of_def requests_of_def fetchPledges_def FetchPledges_def
        FetchPledges_loop.simps RefreshCredentials_def refresh_url_def members_url_def
        db_Exec_update_def seconds_def ex_ticking_def
        time_Until_def time_Sub_def minDuration_def maxDuration_def Hour_def Second_def
        ex_defs run_defs)

text \<open>
  C3, amended. If the credential's expiry is strictly before the clock reading at the
  start of a cycle, \<open>fetchPledges\<close> logs the fatal entry and the process exits, with no
  request sent; and a page fetch with a token whose expiry is strictly before the clock
  reading returns the expiry error with no request sent. If the expiry is not before the
  clock reading, as when the two are equal, neither check fires: the cycle does not exit
  and reaches the aggregation, and the page fetch does not return the expiry error and
  sends its request as soon as the request can be built and the limiter lets it pass.
\<close>

theorem C3_expiry_checks_are_strict:
  "(ExpiresAt (Tokens c) < Now env (clock_reads w) \<longrightarrow>
      (\<exists>w'. fetchPledges env c w = Some (Exited, c, w') \<and>
            requests w' = requests w \<and>
            log w' = log w @
              [(FatalLevel, ''Refresh token has already expired (expired at %s)'',
                [zap_Time ''expires_at'' (ExpiresAt (Tokens c))])]) \<and>
      (\<exists>w'. FetchPage env c w url = (Inl (ErrTokenExpired (ExpiresAt (Tokens c))), w') \<and>
            requests w' = requests w)) \<and>
   (\<not> ExpiresAt (Tokens c) < Now env (clock_reads w) \<longrightarrow>
      outcome_of (fetchPledges env c w) \<noteq> Some Exited \<and>
      before_aggregation env c w \<noteq> None \<and>
      (\<forall>t. fst (FetchPage env c w url) \<noteq> Inl (ErrTokenExpired t)) \<and>
      (NewRequest_ok env url \<and> Wait_ok env (waits w) \<longrightarrow>
         requests (snd (FetchPage env c w url)) = requests w @ [page_request c url]))"
proof (intro conjI impI allI)
  assume a: "ExpiresAt (Tokens c) < Now env (clock_reads w)"
  show "\<exists>w'. fetchPledges env c w = Some (Exited, c, w') \<and>
               requests w' = requests w \<and>
               log w' = log w @
                 [(FatalLevel, ''Refresh token has already expired (expired at %s)'',
                   [zap_Time ''expires_at'' (ExpiresAt (Tokens c))])]"
    by (simp add: fetchPledges_unfold before_aggregation_expired [OF a] logger_def)
  show "\<exists>w'. FetchPage env c w url = (Inl (ErrTokenExpired (ExpiresAt (Tokens c))), w') \<and>
               requests w' = requests w"
    by (simp add: FetchPage_expired [OF a])
next
  assume n: "\<not> ExpiresAt (Tokens c) < Now env (clock_reads w)"
  show "outcome_of (fetchPledges env c w) \<noteq> Some Exited"
    by (rule fetchPledges_not_exited [OF n])
  show "before_aggregation env c w \<noteq> None"
    by (rule before_aggregation_not_expired [OF n])
  show "fst (FetchPage env c w url) \<noteq> Inl (ErrTokenExpired t)" for t
    by (rule FetchPage_not_expired [OF n])
  assume "NewRequest_ok env url \<and> Wait_ok env (waits w)"
  then show "requests (snd (FetchPage env c w url)) = requests w @ [page_request c url]"
    using FetchPage_sends [OF n] by blast
qed

theorem C3_witness:
  "ExpiresAt (Tokens ex_client) <
     Now (ex_env 1001 (status_response 401) (ok_response ''2'') True) (clock_reads ex_world) \<and>
   outcome_of (fetchPledges (ex_env 1001 (status_response 401) (ok_response ''2'') True)
                 ex_client ex_world) = Some Exited \<and>
   requests_of (fetchPledges (ex_env 1001 (status_response 401) (ok_response ''2'') True)
                  ex_client ex_world) = [] \<and>
   fst (FetchPage (ex_env 1001 (status_response 401) (ok_response ''2'') True) ex_client ex_world
          (members_url ex_conf)) = Inl (ErrTokenExpired 1000) \<and>
   requests (snd (FetchPage (ex_env 1001 (status_response 401) (ok_response ''2'') True) ex_client
                    ex_world (members_url ex_conf))) = [] \<and>
   ExpiresAt (Tokens ex_client) =
     Now (ex_env 1000 (status_response 401) (ok_response ''2'') True) (clock_reads ex_world) \<and>
   outcome_of (fetchPledges (ex_env 1000 (status_response 401) (ok_response ''2'') True)
                 ex_client ex_world) \<noteq> Some Exited \<and>
   before_aggregation (ex_env 1000 (status_response 401) (ok_response ''2'') True)
     ex_client ex_world \<noteq> None \<and>
   requests (snd (FetchPage (ex_env 1000 (status_response 401) (ok_response ''2'') True) ex_client
                    ex_world (members_url ex_conf))) =
     [page_request ex_client (members_url ex_conf)]"
proof -
  have a: "ExpiresAt (Tokens ex_client) <
     Now (ex_env 1001 (status_response 401) (ok_response ''2'') True) (clock_reads ex_world)"
    by (simp add: ex_defs)
  have e: "ExpiresAt (Tokens ex_client) =
     Now (ex_env 1000 (status_response 401) (ok_response ''2'') True) (clock_reads ex_world)"
    by (simp add: ex_defs)
  have r: "requests ex_world = []" "ExpiresAt (Tokens ex_client) = 1000"
    "NewRequest_ok (ex_env 1000 (status_response 401) (ok_response ''2'') True) (members_url ex_conf)"
    "Wait_ok (ex_env 1000 (status_response 401) (ok_response ''2'') True) (waits ex_world)"
    by (simp_all add: ex_defs)
  from C3_expiry_checks_are_strict
         [of ex_client "ex_env 1001 (status_response 401) (ok_response ''2'') True" ex_world
            "members_url ex_conf"]
       C3_expiry_checks_are_strict
         [of ex_client "ex_env 1000 (status_response 401) (ok_response ''2'') True" ex_world
            "members_url ex_conf"]
       a e r
  show ?thesis
    by (auto simp: outcome_of_def requests_of_def)
qed

section \<open>The refresh of the credential\<close>

lemma RefreshCredentials_failure:
  assumes "RefreshCredentials env c w = (Some err, c', w')"
  shows "patreon_keys w' = patreon_keys w"
    and "client_config c' = client_config c"
    and "err \<noteq> ErrDatabase \<Longrightarrow> c' = c"
    and "err = ErrDatabase \<Longrightarrow>
         \<not> Exec_ok env (execs w) \<and>
         (\<exists>res body.
            Do env (length (requests w))
              \<lparr>Method = POST, URL = refresh_url c, Header = [(''User-Agent'', UserAgent)]\<rparr> =
              Some res \<and>
            StatusCode res = 200 \<and>
            Option.bind (Body res) (decode_RefreshResponse env) = Some body \<and>
            Tokens c' =
              \<lparr>AccessToken = Resp_AccessToken body,
               RefreshToken = Resp_RefreshToken body,
               ExpiresAt = Now env (clock_reads w) + seconds (ExpiresIn body)\<rparr>)"
  using assms
  unfolding RefreshCredentials_def Let_def time_Now_def ratelimiter_Wait_def httpClient_Do_def
    db_Exec_update_def logger_def
  by (auto split: if_splits option.splits prod.splits bool.splits)

text \<open>Which error each failure gives, in the order in which the call meets them.\<close>

lemma RefreshCredentials_NewRequest:
  "\<not> NewRequest_ok env (refresh_url c) \<Longrightarrow>
   fst (RefreshCredentials env c w) = Some ErrNewRequest"
  by (simp add: RefreshCredentials_def)

lemma RefreshCredentials_Wait:
  "NewRequest_ok env (refresh_url c) \<Longrightarrow> \<not> Wait_ok env (waits w) \<Longrightarrow>
   fst (RefreshCredentials env c w) = Some ErrRateLimiter"
  by (simp add: RefreshCredentials_def Let_def ratelimiter_Wait_def)

lemma RefreshCredentials_transport:
  "NewRequest_ok env (refresh_url c) \<Longrightarrow> Wait_ok env (waits w) \<Longrightarrow>
   Do env (length (requests w)) (refresh_request c) = None \<Longrightarrow>
   fst (RefreshCredentials env c w) = Some ErrTransport"
  by (simp add: RefreshCredentials_def Let_def ratelimiter_Wait_def httpClient_Do_def
        refresh_request_def)

lemma RefreshCredentials_status:
  "NewRequest_ok env (refresh_url c) \<Longrightarrow> Wait_ok env (waits w) \<Longrightarrow>
   Do env (length (requests w)) (refresh_request c) = Some res \<Longrightarrow>
   StatusCode res \<noteq> 200 \<Longrightarrow>
   fst (RefreshCredentials env c w) =
     Some (case Body res of None \<Rightarrow> ErrReadBody | Some body \<Rightarrow> ErrStatus (StatusCode res))"
  by (simp add: RefreshCredentials_def Let_def ratelimiter_Wait_def httpClient_Do_def
        refresh_request_def split: option.splits)

lemma RefreshCredentials_decode:
  "NewRequest_ok env (refresh_url c) \<Longrightarrow> Wait_ok env (waits w) \<Longrightarrow>
   Do env (length (requests w)) (refresh_request c) = Some res \<Longrightarrow>
   StatusCode res = 200 \<Longrightarrow>
   Option.bind (Body res) (decode_RefreshResponse env) = None \<Longrightarrow>
   fst (RefreshCredentials env c w) = Some ErrDecode"
  by (simp add: RefreshCredentials_def Let_def ratelimiter_Wait_def httpClient_Do_def
        refresh_request_def)

lemma RefreshCredentials_database:
  "NewRequest_ok env (refresh_url c) \<Longrightarrow> Wait_ok env (waits w) \<Longrightarrow>
   Do env (length (requests w)) (refresh_request c) = Some res \<Longrightarrow>
   StatusCode res = 200 \<Longrightarrow>
   Option.bind (Body res) (decode_RefreshResponse env) = Some body \<Longrightarrow>
   \<not> Exec_ok env (execs w) \<Longrightarrow>
   fst (RefreshCredentials env c w) = Some ErrDatabase \<and>
   Tokens (fst (snd (RefreshCredentials env c w))) =
     \<lparr>AccessToken = Resp_AccessToken body, RefreshToken = Resp_RefreshToken body,
      ExpiresAt = Now env (clock_reads w) + seconds (ExpiresIn body)\<rparr>"
  by (simp add: RefreshCredentials_def Let_def ratelimiter_Wait_def httpClient_Do_def
        refresh_request_def time_Now_def db_Exec_update_def)

lemma RefreshCredentials_success:
  "NewRequest_ok env (refresh_url c) \<Longrightarrow> Wait_ok env (waits w) \<Longrightarrow>
   Do env (length (requests w)) (refresh_request c) = Some res \<Longrightarrow>
   StatusCode res = 200 \<Longrightarrow>
   Option.bind (Body res) (decode_RefreshResponse env) = Some body \<Longrightarrow>
   Exec_ok env (execs w) \<Longrightarrow>
   fst (RefreshCredentials env c w) = None \<and>
   Tokens (fst (snd (RefreshCredentials env c w))) =
     \<lparr>AccessToken = Resp_AccessToken body, RefreshToken = Resp_RefreshToken body,
      ExpiresAt = Now env (clock_reads w) + seconds (ExpiresIn body)\<rparr> \<and>
   patreon_keys (snd (snd (RefreshCredentials env c w))) =
     (if Patreon_ClientId (client_config c) \<in> dom (patreon_keys w)
      then (patreon_keys w)(Patreon_ClientId (client_config c) \<mapsto>
             \<lparr>AccessToken = Resp_AccessToken body, RefreshToken = Resp_RefreshToken body,
              ExpiresAt = Now env (clock_reads w) + seconds (ExpiresIn body)\<rparr>)
      else patreon_keys w)"
  by (simp add: RefreshCredentials_def Let_def ratelimiter_Wait_def httpClient_Do_def
        refresh_request_def time_Now_def db_Exec_update_def)

text \<open>
  C4, as the claim states it, fails when only the write to the database fails: the
  tokens of the client are assigned before the statement is sent, so the call returns an
  error with the new pair in memory, while the row of the table is the old one.
\<close>

theorem C4_counterexample:
  "fst (RefreshCredentials (ex_env 500 (ok_response ''tokens'') (ok_response ''2'') False)
          ex_client ex_world) = Some ErrDatabase \<and>
   Tokens (fst (snd (RefreshCredentials (ex_env 500 (ok_response ''tokens'') (ok_response ''2'') False)
                       ex_client ex_world))) =
     \<lparr>AccessToken = ''access-2'', RefreshToken = ''refresh-2'', ExpiresAt = 60000000500\<rparr> \<and>
   Tokens ex_client =
     \<lparr>AccessToken = ''access-1'', RefreshToken = ''refresh-1'', ExpiresAt = 1000\<rparr> \<and>
   patreon_keys (snd (snd (RefreshCredentials
                             (ex_env 500 (ok_response ''tokens'') (ok_response ''2'') False)
                             ex_client ex_world))) ''cid'' = Some (Tokens ex_client)"
  by (simp add: RefreshCredentials_def refresh_url_def db_Exec_update_def seconds_def
        ex_defs run_defs)

text \<open>
  C4, amended. Each failure makes the refresh return its own error: a request that
  cannot be built, a wait on the limiter that fails, a transport error, a status other
  than 200 (with a body that can or cannot be read), a body that does not decode, a
  statement that the database refuses. Only when none of them occurs does the call
  return without error, with the new pair in the client and in the row of the table, if
  the table has one for the client. A refresh that returns an error leaves the row of the
  table as it was. It leaves the client's tokens as they were unless the error is that of
  the database; in that case the statement has failed after the endpoint answered 200
  with a body that decodes, and the client holds the pair of that response with the
  expiry computed from it.
\<close>

theorem C4_failed_refresh_keeps_persisted_credential:
  "(RefreshCredentials env c w = (Some err, c', w') \<longrightarrow>
      patreon_keys w' = patreon_keys w \<and>
      client_config c' = client_config c \<and>
      (err \<noteq> ErrDatabase \<longrightarrow> c' = c) \<and>
      (err = ErrDatabase \<longrightarrow>
         \<not> Exec_ok env (execs w) \<and>
         (\<exists>res body.
            Do env (length (requests w)) (refresh_request c) = Some res \<and>
            StatusCode res = 200 \<and>
            Option.bind (Body res) (decode_RefreshResponse env) = Some body \<and>
            Tokens c' =
              \<lparr>AccessToken = Resp_AccessToken body,
               RefreshToken = Resp_RefreshToken body,
               ExpiresAt = Now env (clock_reads w) + seconds (ExpiresIn body)\<rparr>))) \<and>
   (\<not> NewRequest_ok env (refresh_url c) \<longrightarrow>
      fst (RefreshCredentials env c w) = Some ErrNewRequest) \<and>
   (NewRequest_ok env (refresh_url c) \<and> \<not> Wait_ok env (waits w) \<longrightarrow>
      fst (RefreshCredentials env c w) = Some ErrRateLimiter) \<and>
   (NewRequest_ok env (refresh_url c) \<and> Wait_ok env (waits w) \<and>
    Do env (length (requests w)) (refresh_request c) = None \<longrightarrow>
      fst (RefreshCredentials env c w) = Some ErrTransport) \<and>
   (NewRequest_ok env (refresh_url c) \<and> Wait_ok env (waits w) \<and>
    Do env (length (requests w)) (refresh_request c) = Some res \<and>
    StatusCode res \<noteq> 200 \<longrightarrow>
      fst (RefreshCredentials env c w) =
        Some (case Body res of None \<Rightarrow> ErrReadBody | Some body \<Rightarrow> ErrStatus (StatusCode res))) \<and>
   (NewRequest_ok env (refresh_url c) \<and> Wait_ok env (waits w) \<and>
    Do env (length (requests w)) (refresh_request c) = Some res \<and>
    StatusCode res = 200 \<and>
    Option.bind (Body res) (decode_RefreshResponse env) = None \<longrightarrow>
      fst (RefreshCredentials env c w) = Some ErrDecode) \<and>
   (NewRequest_ok env (refresh_url c) \<and> Wait_ok env (waits w) \<and>
    Do env (length (requests w)) (refresh_request c) = Some res \<and>
    StatusCode res = 200 \<and>
    Option.bind (Body res) (decode_RefreshResponse env) = Some decoded \<and>
    \<not> Exec_ok env (execs w) \<longrightarrow>
      fst (RefreshCredentials env c w) = Some ErrDatabase \<and>
      Tokens (fst (snd (RefreshCredentials env c w))) =
        \<lparr>AccessToken = Resp_AccessToken decoded, RefreshToken = Resp_RefreshToken decoded,
         ExpiresAt = Now env (clock_reads w) + seconds (ExpiresIn decoded)\<rparr>) \<and>
   (NewRequest_ok env (refresh_url c) \<and> Wait_ok env (waits w) \<and>
    Do env (length (requests w)) (refresh_request c) = Some res \<and>
    StatusCode res = 200 \<and>
    Option.bind (Body res) (decode_RefreshResponse env) = Some decoded \<and>
    Exec_ok env (execs w) \<longrightarrow>
      fst (RefreshCredentials env c w) = None \<and>
      Tokens (fst (snd (RefreshCredentials env c w))) =
        \<lparr>AccessToken = Resp_AccessToken decoded, RefreshToken = Resp_RefreshToken decoded,
         ExpiresAt = Now env (clock_reads w) + seconds (ExpiresIn decoded)\<rparr> \<and>
      patreon_keys (snd (snd (RefreshCredentials env c w))) =
        (if Patreon_ClientId (client_config c) \<in> dom (patreon_keys w)
         then (patreon_keys w)(Patreon_ClientId (client_config c) \<mapsto>
                \<lparr>AccessToken = Resp_AccessToken decoded, RefreshToken = Resp_RefreshToken decoded,
                 ExpiresAt = Now env (clock_reads w) + seconds (ExpiresIn decoded)\<rparr>)
         else patreon_keys w))"
proof (intro conjI impI)
  assume r: "RefreshCredentials env c w = (Some err, c', w')"
  show "patreon_keys w' = patreon_keys w"
    by (rule RefreshCredentials_failure(1) [OF r])
  show "client_config c' = client_config c"
    by (rule RefreshCredentials_failure(2) [OF r])
  show "c' = c" if "err \<noteq> ErrDatabase"
    by (rule RefreshCredentials_failure(3) [OF r that])
  show "\<not> Exec_ok env (execs w)" if "err = ErrDatabase"
    using RefreshCredentials_failure(4) [OF r that] by blast
  show "\<exists>res body.
            Do env (length (requests w)) (refresh_request c) = Some res \<and>
            StatusCode res = 200 \<and>
            Option.bind (Body res) (decode_RefreshResponse env) = Some body \<and>
            Tokens c' =
              \<lparr>AccessToken = Resp_AccessToken body,
               RefreshToken = Resp_RefreshToken body,
               ExpiresAt = Now env (clock_reads w) + seconds (ExpiresIn body)\<rparr>"
    if "err = ErrDatabase"
    using RefreshCredentials_failure(4) [OF r that] unfolding refresh_request_def by blast
next
  assume "\<not> NewRequest_ok env (refresh_url c)"
  then show "fst (RefreshCredentials env c w) = Some ErrNewRequest"
    by (rule RefreshCredentials_NewRequest)
next
  assume "NewRequest_ok env (refresh_url c) \<and> \<not> Wait_ok env (waits w)"
  then show "fst (RefreshCredentials env c w) = Some ErrRateLimiter"
    using RefreshCredentials_Wait by blast
next
  assume "NewRequest_ok env (refresh_url c) \<and> Wait_ok env (waits w) \<and>
    Do env (length (requests w)) (refresh_request c) = None"
  then show "fst (RefreshCredentials env c w) = Some ErrTransport"
    using RefreshCredentials_transport by blast
next
  assume "NewRequest_ok env (refresh_url c) \<and> Wait_ok env (waits w) \<and>
    Do env (length (requests w)) (refresh_request c) = Some res \<and>
    StatusCode res \<noteq> 200"
  then show "fst (RefreshCredentials env c w) =
        Some (case Body res of None \<Rightarrow> ErrReadBody | Some body \<Rightarrow> ErrStatus (StatusCode res))"
    using RefreshCredentials_status by blast
next
  assume "NewRequest_ok env (refresh_url c) \<and> Wait_ok env (waits w) \<and>
    Do env (length (requests w)) (refresh_request c) = Some res \<and>
    StatusCode res = 200 \<and>
    Option.bind (Body res) (decode_RefreshResponse env) = None"
  then show "fst (RefreshCredentials env c w) = Some ErrDecode"
    using RefreshCredentials_decode by blast
next
  assume a: "NewRequest_ok env (refresh_url c) \<and> Wait_ok env (waits w) \<and>
    Do env (length (requests w)) (refresh_request c) = Some res \<and>
    StatusCode res = 200 \<and>
    Option.bind (Body res) (decode_RefreshResponse env) = Some decoded \<and>
    \<not> Exec_ok env (execs w)"
  then have d: "fst (RefreshCredentials env c w) = Some ErrDatabase \<and>
      Tokens (fst (snd (RefreshCredentials env c w))) =
        \<lparr>AccessToken = Resp_AccessToken decoded, RefreshToken = Resp_RefreshToken decoded,
         ExpiresAt = Now env (clock_reads w) + seconds (ExpiresIn decoded)\<rparr>"
    using RefreshCredentials_database [of env c w res decoded] by blast
  from d show "fst (RefreshCredentials env c w) = Some ErrDatabase" by (rule conjunct1)
  from d show "Tokens (fst (snd (RefreshCredentials env c w))) =
        \<lparr>AccessToken = Resp_AccessToken decoded, RefreshToken = Resp_RefreshToken decoded,
         ExpiresAt = Now env (clock_reads w) + seconds (ExpiresIn decoded)\<rparr>"
    by (rule conjunct2)
next
  assume a: "NewRequest_ok env (refresh_url c) \<and> Wait_ok env (waits w) \<and>
    Do env (length (requests w)) (refresh_request c) = Some res \<and>
    StatusCode res = 200 \<and>
    Option.bind (Body res) (decode_RefreshResponse env) = Some decoded \<and>
    Exec_ok env (execs w)"
  then have d: "fst (RefreshCredentials env c w) = None \<and>
      Tokens (fst (snd (RefreshCredentials env c w))) =
        \<lparr>AccessToken = Resp_AccessToken decoded, RefreshToken = Resp_RefreshToken decoded,
         ExpiresAt = Now env (clock_reads w) + seconds (ExpiresIn decoded)\<rparr> \<and>
      patreon_keys (snd (snd (RefreshCredentials env c w))) =
        (if Patreon_ClientId (client_config c) \<in> dom (patreon_keys w)
         then (patreon_keys w)(Patreon_ClientId (client_config c) \<mapsto>
                \<lparr>AccessToken = Resp_AccessToken decoded, RefreshToken = Resp_RefreshToken decoded,
                 ExpiresAt = Now env (clock_reads w) + seconds (ExpiresIn decoded)\<rparr>)
         else patreon_keys w)"
    using RefreshCredentials_success [of env c w res decoded] by blast
  from d show "fst (RefreshCredentials env c w) = None" by (rule conjunct1)
  from d show "Tokens (fst (snd (RefreshCredentials env c w))) =
        \<lparr>AccessToken = Resp_AccessToken decoded, RefreshToken = Resp_RefreshToken decoded,
         ExpiresAt = Now env (clock_reads w) + seconds (ExpiresIn decoded)\<rparr>"
    by (rule conjunct1 [OF conjunct2])
  from d show "patreon_keys (snd (snd (RefreshCredentials env c w))) =
        (if Patreon_ClientId (client_config c) \<in> dom (patreon_keys w)
         then (patreon_keys w)(Patreon_ClientId (client_config c) \<mapsto>
                \<lparr>AccessToken = Resp_AccessToken decoded, RefreshToken = Resp_RefreshToken decoded,
                 ExpiresAt = Now env (clock_reads w) + seconds (ExpiresIn decoded)\<rparr>)
         else patreon_keys w)"
    by (rule conjunct2 [OF conjunct2])
qed

theorem C4_witness:
  "RefreshCredentials (ex_env 500 (status_response 401) (ok_response ''2'') True) ex_client ex_world =
     (Some (ErrStatus 401), ex_client,
      snd (snd (RefreshCredentials (ex_env 500 (status_response 401) (ok_response ''2'') True)
                  ex_client ex_world))) \<and>
   patreon_keys (snd (snd (RefreshCredentials
                             (ex_env 500 (status_response 401) (ok_response ''2'') True)
                             ex_client ex_world))) = patreon_keys ex_world \<and>
   fst (RefreshCredentials (ex_env 500 None (ok_response ''2'') True) ex_client ex_world) =
     Some ErrTransport \<and>
   fst (RefreshCredentials (ex_env 500 (ok_response ''garbage'') (ok_response ''2'') True)
          ex_client ex_world) = Some ErrDecode \<and>
   fst (RefreshCredentials (ex_env 500 (ok_response ''tokens'') (ok_response ''2'') False)
          ex_client ex_world) = Some ErrDatabase \<and>
   fst (RefreshCredentials (ex_env 500 (ok_response ''tokens'') (ok_response ''2'') True)
          ex_client ex_world) = None \<and>
   patreon_keys
     (snd (snd (RefreshCredentials (ex_env 500 (ok_response ''tokens'') (ok_response ''2'') True)
                  ex_client ex_world))) ''cid'' =
     Some \<lparr>AccessToken = ''access-2'', RefreshToken = ''refresh-2'', ExpiresAt = 60000000500\<rparr>"
  (is "?A \<and> ?B \<and> ?C \<and> ?D \<and> ?E \<and> ?F \<and> ?G")
proof -
  have a: ?A
    by (simp add: RefreshCredentials_def refresh_url_def ex_defs run_defs)
  note t1 = C4_failed_refresh_keeps_persisted_credential
            [of "ex_env 500 (status_response 401) (ok_response ''2'') True" ex_client ex_world
               "ErrStatus 401" ex_client
               "snd (snd (RefreshCredentials (ex_env 500 (status_response 401) (ok_response ''2'') True)
                  ex_client ex_world))"]
  have b: ?B
    by (rule conjunct1 [OF mp [OF conjunct1 [OF t1] a]])
  have h: "NewRequest_ok (ex_env 500 r s x) (refresh_url ex_client)"
    "Wait_ok (ex_env 500 r s x) (waits ex_world)"
    "Do (ex_env 500 r s x) (length (requests ex_world)) (refresh_request ex_client) = r"
    "Exec_ok (ex_env 500 r s x) (execs ex_world) = x"
    "decode_RefreshResponse (ex_env 500 r s x) ''tokens'' = Some ex_refreshed"
    "decode_RefreshResponse (ex_env 500 r s x) ''garbage'' = None"
    for r s x
    by (simp_all add: ex_env_def ex_world_def refresh_request_def)
  note t2 = C4_failed_refresh_keeps_persisted_credential
            [where env = "ex_env 500 None (ok_response ''2'') True" and c = ex_client
               and w = ex_world]
  have c: ?C
    by (rule mp [OF conjunct1 [OF conjunct2 [OF conjunct2 [OF conjunct2 [OF t2]]]]])
       (simp add: h)
  note t3 = C4_failed_refresh_keeps_persisted_credential
            [where env = "ex_env 500 (ok_response ''garbage'') (ok_response ''2'') True"
               and c = ex_client and w = ex_world
               and res = "\<lparr>StatusCode = 200, Body = Some ''garbage''\<rparr>"]
  have d: ?D
    by (rule mp [OF conjunct1 [OF conjunct2 [OF conjunct2 [OF conjunct2 [OF conjunct2
                  [OF conjunct2 [OF t3]]]]]]])
       (simp add: h ok_response_def)
  note t4 = C4_failed_refresh_keeps_persisted_credential
            [where env = "ex_env 500 (ok_response ''tokens'') (ok_response ''2'') False"
               and c = ex_client and w = ex_world
               and res = "\<lparr>StatusCode = 200, Body = Some ''tokens''\<rparr>"
               and decoded = ex_refreshed]
  have e: ?E
    by (rule conjunct1 [OF mp [OF conjunct1 [OF conjunct2 [OF conjunct2 [OF conjunct2
                  [OF conjunct2 [OF conjunct2 [OF conjunct2 [OF t4]]]]]]]]])
       (simp add: h ok_response_def)
  note t5 = C4_failed_refresh_keeps_persisted_credential
            [where env = "ex_env 500 (ok_response ''tokens'') (ok_response ''2'') True"
               and c = ex_client and w = ex_world
               and res = "\<lparr>StatusCode = 200, Body = Some ''tokens''\<rparr>"
               and decoded = ex_refreshed]
  have s: "fst (RefreshCredentials (ex_env 500 (ok_response ''tokens'') (ok_response ''2'') True)
                  ex_client ex_world) = None \<and>
           Tokens (fst (snd (RefreshCredentials
                               (ex_env 500 (ok_response ''tokens'') (ok_response ''2'') True)
                               ex_client ex_world))) =
             \<lparr>AccessToken = Resp_AccessToken ex_refreshed,
              RefreshToken = Resp_RefreshToken ex_refreshed,
              ExpiresAt = Now (ex_env 500 (ok_response ''tokens'') (ok_response ''2'') True)
                            (clock_reads ex_world) + seconds (ExpiresIn ex_refreshed)\<rparr> \<and>
           patreon_keys
             (snd (snd (RefreshCredentials
                          (ex_env 500 (ok_response ''tokens'') (ok_response ''2'') True)
                          ex_client ex_world))) =
             (if Patreon_ClientId (client_config ex_client) \<in> dom (patreon_keys ex_world)
              then (patreon_keys ex_world)(Patreon_ClientId (client_config ex_client) \<mapsto>
                     \<lparr>AccessToken = Resp_AccessToken ex_refreshed,
                      RefreshToken = Resp_RefreshToken ex_refreshed,
                      ExpiresAt = Now (ex_env 500 (ok_response ''tokens'') (ok_response ''2'') True)
                                    (clock_reads ex_world) + seconds (ExpiresIn ex_refreshed)\<rparr>)
              else patreon_keys ex_world)"
    by (rule mp [OF conjunct2 [OF conjunct2 [OF conjunct2 [OF conjunct2
                  [OF conjunct2 [OF conjunct2 [OF conjunct2 [OF t5]]]]]]]])
       (simp add: h ok_response_def)
  have f: ?F by (rule conjunct1 [OF s])
  have g: ?G
    unfolding conjunct2 [OF conjunct2 [OF s]]
    by (simp add: ex_env_def ex_client_def ex_conf_def ex_world_def ex_refreshed_def seconds_def)
  show ?thesis
    by (intro conjI) (rule a b c d e f g)+
qed

section \<open>A cycle whose refresh fails\<close>

lemma loop_requests:
  assumes "FetchPledges_loop env c url data w = Some r"
  shows "\<exists>sent. requests (snd r) = requests w @ sent \<and>
                list_all (\<lambda>q. q = page_request c (URL q)) sent"
proof (rule FetchPledges_loop.raw_induct
    [where P = "\<lambda>env c url data w r.
         \<exists>sent. requests (snd r) = requests w @ sent \<and>
                list_all (\<lambda>q. q = page_request c (URL q)) sent",
     OF _ assms])
  fix loop env c url data w r
  assume IH: "\<And>env c url data w y. loop env c url data w = Some y \<Longrightarrow>
         \<exists>sent. requests (snd y) = requests w @ sent \<and>
                list_all (\<lambda>q. q = page_request c (URL q)) sent"
    and body: "(case FetchPageWithTimeout env c w url of
        (Inl err, w1) \<Rightarrow> Some ((NilMap, Some err), w1)
      | (Inr res, w1) \<Rightarrow>
          (case range_Data (client_config c) (Included res) data (Data res) w1 of
             (data', w2) \<Rightarrow>
               (case Links res of
                  None \<Rightarrow> Some ((GoMap data', None), w2)
                | Some None \<Rightarrow> Some ((GoMap data', None), w2)
                | Some (Some next) \<Rightarrow> loop env c next data' w2))) = Some r"
  obtain x w1 where f: "FetchPage env c w url = (x, w1)"
    by (cases "FetchPage env c w url") auto
  have q: "page_request c url = page_request c (URL (page_request c url))"
    by (simp add: page_request_def)
  from FetchPage_frame [OF f]
  have one: "\<exists>sent. requests w1 = requests w @ sent \<and>
                    list_all (\<lambda>q. q = page_request c (URL q)) sent"
  proof (elim conjE disjE)
    assume "requests w1 = requests w"
    then show ?thesis by simp
  next
    assume "requests w1 = requests w @ [page_request c url]"
    with q show ?thesis by simp
  qed
  show "\<exists>sent. requests (snd r) = requests w @ sent \<and>
                list_all (\<lambda>q. q = page_request c (URL q)) sent"
  proof (cases x)
    case (Inl err)
    with body f have "snd r = w1"
      by (auto simp: FetchPageWithTimeout_def)
    with one show ?thesis by simp
  next
    case (Inr res)
    let ?d = "merge_members (client_config c) (Included res) data (Data res)"
    let ?w2 = "w1\<lparr>log := log w1 @ members_log (client_config c) (Data res)\<rparr>"
    show ?thesis
    proof (cases "next_link res")
      case None
      from next_link_None [OF this] body f Inr have "snd r = ?w2"
        by (auto simp: FetchPageWithTimeout_def range_Data_eq)
      with one show ?thesis by simp
    next
      case (Some u)
      from next_link_Some [OF this] body f Inr have "loop env c u ?d ?w2 = Some r"
        by (simp add: FetchPageWithTimeout_def range_Data_eq)
      from IH [OF this] obtain sent2 where
        "requests (snd r) = requests ?w2 @ sent2"
        "list_all (\<lambda>q. q = page_request c (URL q)) sent2"
        by blast
      moreover from one obtain sent1 where
        "requests w1 = requests w @ sent1"
        "list_all (\<lambda>q. q = page_request c (URL q)) sent1"
        by blast
      ultimately have "requests (snd r) = requests w @ (sent1 @ sent2) \<and>
                       list_all (\<lambda>q. q = page_request c (URL q)) (sent1 @ sent2)"
        by simp
      then show ?thesis by blast
    qed
  qed
qed

lemma loop_first_request:
  assumes "\<not> ExpiresAt (Tokens c) < Now env (clock_reads w)"
    and "NewRequest_ok env url" and "Wait_ok env (waits w)"
    and "FetchPledges_loop env c url data w = Some r"
  shows "\<exists>rest. requests (snd r) = requests w @ page_request c url # rest"
proof -
  obtain x w1 where f: "FetchPage env c w url = (x, w1)"
    by (cases "FetchPage env c w url") auto
  from FetchPage_sends [OF assms(1-3)] f
  have s: "requests w1 = requests w @ [page_request c url]" by simp
  let ?w2 = "\<lambda>res. w1\<lparr>log := log w1 @ members_log (client_config c) (Data res)\<rparr>"
  show ?thesis
  proof (cases x)
    case (Inl err)
    with loop_step_Inl [of env c w url err w1 data] f assms(4) have "snd r = w1" by auto
    with s show ?thesis by simp
  next
    case (Inr res)
    show ?thesis
    proof (cases "next_link res")
      case None
      from loop_step_last [OF f [unfolded Inr] None, of data] assms(4)
      have "snd r = ?w2 res" by auto
      with s show ?thesis by simp
    next
      case (Some u)
      from loop_step_next [OF f [unfolded Inr] Some, of data] assms(4)
      have "FetchPledges_loop env c u
              (merge_members (client_config c) (Included res) data (Data res)) (?w2 res) = Some r"
        by simp
      from loop_requests [OF this] s show ?thesis by auto
    qed
  qed
qed

lemma before_aggregation_refresh_failed:
  assumes "\<not> ExpiresAt (Tokens c) < Now env (clock_reads w)"
    and "time_Sub (ExpiresAt (Tokens c)) (Now env (Suc (clock_reads w))) < Hour * 24 * 3"
    and "refresh_attempt env c w = (Some err, c', w4)"
  shows "before_aggregation env c w =
           Some (c', logger ErrorLevel ''Failed to refresh token'' [zap_Error err] w4)"
  using assms
  by (simp add: before_aggregation_def refresh_attempt_def time_Until_def time_Now_def Let_def)

text \<open>
  C5, as the claim states it, fails for one kind of failed refresh: when the exchange
  succeeds and only the write to the database fails, the refresh is reported as failed,
  and the aggregation goes on with the new access token, not the prior one.
\<close>

theorem C5_counterexample:
  "(ErrorLevel, ''Failed to refresh token'', [zap_Error ErrDatabase]) \<in>
     set (log_of (fetchPledges (ex_env 500 (ok_response ''tokens'') (ok_response ''2'') False)
                    ex_client ex_world)) \<and>
   AccessToken (Tokens ex_client) = ''access-1'' \<and>
   map authorization
     (requests_of (fetchPledges (ex_env 500 (ok_response ''tokens'') (ok_response ''2'') False)
                     ex_client ex_world)) =
     [None, Some ''Bearer access-2'', Some ''Bearer access-2'']"
  by (simp add: log_of_def requests_of_def authorization_def fetchPledges_def FetchPledges_def
        FetchPledges_loop.simps RefreshCredentials_def refresh_url_def members_url_def
        db_Exec_update_def seconds_def
        time_Until_def time_Sub_def minDuration_def maxDuration_def Hour_def Second_def
        ex_defs run_defs)

lemma page_request_authorization:
  "authorization (page_request c url) = Some (''Bearer '' @ AccessToken (Tokens c))"
  by (simp add: authorization_def page_request_def)

lemma refresh_attempt_status:
  assumes "NewRequest_ok env (refresh_url c)" "Wait_ok env (waits w)"
    and "Do env (length (requests w)) (refresh_request c) = Some res"
    and "StatusCode res \<noteq> 200"
  shows "fst (refresh_attempt env c w) =
           Some (case Body res of None \<Rightarrow> ErrReadBody | Some body \<Rightarrow> ErrStatus (StatusCode res))"
  unfolding refresh_attempt_def
  by (rule RefreshCredentials_status) (simp_all add: assms logger_def)

lemma refresh_attempt_database:
  assumes "refresh_attempt env c w = (Some ErrDatabase, c', w4)"
  shows "\<exists>res body.
           Do env (length (requests w)) (refresh_request c) = Some res \<and>
           StatusCode res = 200 \<and>
           Option.bind (Body res) (decode_RefreshResponse env) = Some body \<and>
           Tokens c' =
             \<lparr>AccessToken = Resp_AccessToken body,
              RefreshToken = Resp_RefreshToken body,
              ExpiresAt = Now env (Suc (Suc (clock_reads w))) + seconds (ExpiresIn body)\<rparr>"
  using RefreshCredentials_failure(4) [OF assms [unfolded refresh_attempt_def] refl]
  by (simp add: logger_def refresh_request_def)

text \<open>
  C5, amended. Let a cycle start with a credential that is not past its expiry and due
  for refresh. A refresh that the endpoint answers with a status other than 200, such as
  401, returns an error. Whenever the refresh returns an error, the cycle logs the
  failure and goes on to the aggregation; the row of the table is as before; the client's
  tokens are as before unless the error is that of the database, in which case the client
  holds the pair of the endpoint's response; the outcome of the cycle is that of the
  aggregation; every request of the aggregation carries the access token that the client
  then holds, and the first goes to the members URL when the token is not past its
  expiry, the request can be built and the limiter lets it pass; and when the token is
  past its expiry at the first fetch, the cycle ends with the expiry error, nothing sent
  and no request made by the aggregation.
\<close>

theorem C5_failed_refresh_does_not_abort:
  assumes "\<not> ExpiresAt (Tokens c) < Now env (clock_reads w)"
    and "time_Sub (ExpiresAt (Tokens c)) (Now env (Suc (clock_reads w))) < Hour * 24 * 3"
  shows "(NewRequest_ok env (refresh_url c) \<and> Wait_ok env (waits w) \<and>
          Do env (length (requests w)) (refresh_request c) = Some res \<and>
          StatusCode res \<noteq> 200 \<longrightarrow>
            fst (refresh_attempt env c w) =
              Some (case Body res of None \<Rightarrow> ErrReadBody
                    | Some body \<Rightarrow> ErrStatus (StatusCode res))) \<and>
         (refresh_attempt env c w = (Some err, c', w4) \<and>
          w5 = logger ErrorLevel ''Failed to refresh token'' [zap_Error err] w4 \<and>
          url = members_url (client_config c') \<longrightarrow>
            before_aggregation env c w = Some (c', w5) \<and>
            patreon_keys w5 = patreon_keys w \<and>
            (err \<noteq> ErrDatabase \<longrightarrow> c' = c) \<and>
            (err = ErrDatabase \<longrightarrow>
               (\<exists>res body.
                  Do env (length (requests w)) (refresh_request c) = Some res \<and>
                  StatusCode res = 200 \<and>
                  Option.bind (Body res) (decode_RefreshResponse env) = Some body \<and>
                  Tokens c' =
                    \<lparr>AccessToken = Resp_AccessToken body,
                     RefreshToken = Resp_RefreshToken body,
                     ExpiresAt = Now env (Suc (Suc (clock_reads w))) +
                                 seconds (ExpiresIn body)\<rparr>)) \<and>
            fetchPledges env c w =
              (case FetchPledges env c' w5 of
                 None \<Rightarrow> None
               | Some ((fetched, Some e), w6) \<Rightarrow>
                   Some (NotSent e, c',
                         logger ErrorLevel ''Failed to fetch pledges'' [zap_Error e] w6)
               | Some ((fetched, None), w6) \<Rightarrow> Some (Sent fetched, c', w6)) \<and>
            (\<forall>r w6. FetchPledges env c' w5 = Some (r, w6) \<longrightarrow>
               (\<exists>sent. requests w6 = requests w5 @ sent \<and>
                       list_all (\<lambda>q. q = page_request c' (URL q) \<and>
                                      authorization q =
                                        Some (''Bearer '' @ AccessToken (Tokens c'))) sent)) \<and>
            (\<not> ExpiresAt (Tokens c') < Now env (clock_reads w5) \<and>
             NewRequest_ok env url \<and> Wait_ok env (waits w5) \<longrightarrow>
               (\<forall>r w6. FetchPledges env c' w5 = Some (r, w6) \<longrightarrow>
                  (\<exists>rest. requests w6 = requests w5 @ page_request c' url # rest))) \<and>
            (ExpiresAt (Tokens c') < Now env (clock_reads w5) \<longrightarrow>
               (\<exists>w6. fetchPledges env c w =
                        Some (NotSent (ErrTokenExpired (ExpiresAt (Tokens c'))), c', w6) \<and>
                      requests w6 = requests w5)))"
proof (intro conjI impI)
  assume "NewRequest_ok env (refresh_url c) \<and> Wait_ok env (waits w) \<and>
          Do env (length (requests w)) (refresh_request c) = Some res \<and>
          StatusCode res \<noteq> 200"
  then show "fst (refresh_attempt env c w) =
              Some (case Body res of None \<Rightarrow> ErrReadBody
                    | Some body \<Rightarrow> ErrStatus (StatusCode res))"
    using refresh_attempt_status by blast
next
  assume h: "refresh_attempt env c w = (Some err, c', w4) \<and>
          w5 = logger ErrorLevel ''Failed to refresh token'' [zap_Error err] w4 \<and>
          url = members_url (client_config c')"
  then have f: "refresh_attempt env c w = (Some err, c', w4)"
    and w5: "w5 = logger ErrorLevel ''Failed to refresh token'' [zap_Error err] w4"
    and url: "url = members_url (client_config c')"
    by blast+
  show A: "before_aggregation env c w = Some (c', w5)"
    using before_aggregation_refresh_failed [OF assms f] w5 by simp
  show "patreon_keys w5 = patreon_keys w"
    using RefreshCredentials_failure(1) [OF f [unfolded refresh_attempt_def]] w5
    by (simp add: logger_def)
  show "c' = c" if "err \<noteq> ErrDatabase"
    using RefreshCredentials_failure(3) [OF f [unfolded refresh_attempt_def] that] .
  show "\<exists>res body.
          Do env (length (requests w)) (refresh_request c) = Some res \<and>
          StatusCode res = 200 \<and>
          Option.bind (Body res) (decode_RefreshResponse env) = Some body \<and>
          Tokens c' =
            \<lparr>AccessToken = Resp_AccessToken body,
             RefreshToken = Resp_RefreshToken body,
             ExpiresAt = Now env (Suc (Suc (clock_reads w))) + seconds (ExpiresIn body)\<rparr>"
    if "err = ErrDatabase"
    using refresh_attempt_database [of env c w c' w4] f that by simp
  show D: "fetchPledges env c w =
           (case FetchPledges env c' w5 of
              None \<Rightarrow> None
            | Some ((fetched, Some e), w6) \<Rightarrow>
                Some (NotSent e, c', logger ErrorLevel ''Failed to fetch pledges'' [zap_Error e] w6)
            | Some ((fetched, None), w6) \<Rightarrow> Some (Sent fetched, c', w6))"
    by (simp add: fetchPledges_unfold A)
  show "\<forall>r w6. FetchPledges env c' w5 = Some (r, w6) \<longrightarrow>
          (\<exists>sent. requests w6 = requests w5 @ sent \<and>
                  list_all (\<lambda>q. q = page_request c' (URL q) \<and>
                                 authorization q =
                                   Some (''Bearer '' @ AccessToken (Tokens c'))) sent)"
  proof (intro allI impI)
    fix r w6
    assume "FetchPledges env c' w5 = Some (r, w6)"
    from loop_requests [OF this [unfolded FetchPledges_def]] obtain sent where
      s: "requests w6 = requests w5 @ sent"
      "list_all (\<lambda>q. q = page_request c' (URL q)) sent"
      by auto
    have "list_all (\<lambda>q. q = page_request c' (URL q) \<and>
                      authorization q = Some (''Bearer '' @ AccessToken (Tokens c'))) sent"
      unfolding list_all_iff
    proof (intro ballI conjI)
      fix q
      assume "q \<in> set sent"
      with s(2) show e: "q = page_request c' (URL q)"
        by (simp add: list_all_iff)
      show "authorization q = Some (''Bearer '' @ AccessToken (Tokens c'))"
        by (subst e) (rule page_request_authorization)
    qed
    with s(1) show "\<exists>sent. requests w6 = requests w5 @ sent \<and>
                  list_all (\<lambda>q. q = page_request c' (URL q) \<and>
                                 authorization q =
                                   Some (''Bearer '' @ AccessToken (Tokens c'))) sent"
      by blast
  qed
  show "\<forall>r w6. FetchPledges env c' w5 = Some (r, w6) \<longrightarrow>
          (\<exists>rest. requests w6 = requests w5 @ page_request c' url # rest)"
    if "\<not> ExpiresAt (Tokens c') < Now env (clock_reads w5) \<and>
        NewRequest_ok env url \<and> Wait_ok env (waits w5)"
  proof (intro allI impI)
    fix r w6
    assume g: "FetchPledges env c' w5 = Some (r, w6)"
    from that have t: "\<not> ExpiresAt (Tokens c') < Now env (clock_reads w5)"
      "NewRequest_ok env url" "Wait_ok env (waits w5)" by blast+
    from loop_first_request [OF t g [unfolded FetchPledges_def url [symmetric]]]
    show "\<exists>rest. requests w6 = requests w5 @ page_request c' url # rest" by simp
  qed
  show "\<exists>w6. fetchPledges env c w =
                Some (NotSent (ErrTokenExpired (ExpiresAt (Tokens c'))), c', w6) \<and>
              requests w6 = requests w5"
    if e: "ExpiresAt (Tokens c') < Now env (clock_reads w5)"
  proof -
    from loop_step_Inl [OF FetchPage_expired [OF e]]
    have "FetchPledges env c' w5 =
            Some ((NilMap, Some (ErrTokenExpired (ExpiresAt (Tokens c')))),
                  w5\<lparr>clock_reads := Suc (clock_reads w5),
                     log := log w5 @ [(DebugLevel, ''Fetching page'', [zap_String ''url'' url])]\<rparr>)"
      by (simp add: FetchPledges_def url)
    then show ?thesis
      by (simp add: D logger_def)
  qed
qed

theorem C5_witness:
  "\<not> ExpiresAt (Tokens ex_client) <
       Now (ex_env 500 (status_response 401) (ok_response ''2'') True) (clock_reads ex_world) \<and>
   time_Sub (ExpiresAt (Tokens ex_client))
     (Now (ex_env 500 (status_response 401) (ok_response ''2'') True) (Suc (clock_reads ex_world)))
     < Hour * 24 * 3 \<and>
   fst (refresh_attempt (ex_env 500 (status_response 401) (ok_response ''2'') True)
          ex_client ex_world) = Some (ErrStatus 401) \<and>
   before_aggregation (ex_env 500 (status_response 401) (ok_response ''2'') True) ex_client ex_world =
     Some (ex_client,
           logger ErrorLevel ''Failed to refresh token'' [zap_Error (ErrStatus 401)]
             (snd (snd (refresh_attempt (ex_env 500 (status_response 401) (ok_response ''2'') True)
                          ex_client ex_world)))) \<and>
   patreon_keys
     (logger ErrorLevel ''Failed to refresh token'' [zap_Error (ErrStatus 401)]
        (snd (snd (refresh_attempt (ex_env 500 (status_response 401) (ok_response ''2'') True)
                     ex_client ex_world)))) = patreon_keys ex_world \<and>
   map authorization
     (requests_of (fetchPledges (ex_env 500 (status_response 401) (ok_response ''2'') True)
                     ex_client ex_world)) =
     [None, Some ''Bearer access-1'', Some ''Bearer access-1''] \<and>
   fst (refresh_attempt (ex_env 500 (ok_response ''tokens'') (ok_response ''2'') False)
          ex_client ex_world) = Some ErrDatabase \<and>
   AccessToken
     (Tokens (fst (snd (refresh_attempt (ex_env 500 (ok_response ''tokens'') (ok_response ''2'') False)
                          ex_client ex_world)))) = ''access-2''"
  (is "?A \<and> ?B \<and> ?C \<and> ?D \<and> ?E \<and> ?F \<and> ?G \<and> ?H")
proof -
  have a: "\<not> ExpiresAt (Tokens ex_client) < Now (ex_env 500 r s x) (clock_reads ex_world)"
    for r s x by (simp add: ex_defs)
  have b: "time_Sub (ExpiresAt (Tokens ex_client))
             (Now (ex_env 500 r s x) (Suc (clock_reads ex_world))) < Hour * 24 * 3"
    for r s x
    by (simp add: time_Sub_def minDuration_def maxDuration_def Hour_def Second_def ex_defs)
  have h: "NewRequest_ok (ex_env 500 r s x) (refresh_url ex_client)"
    "Wait_ok (ex_env 500 r s x) (waits ex_world)"
    "Do (ex_env 500 r s x) (length (requests ex_world)) (refresh_request ex_client) = r"
    "decode_RefreshResponse (ex_env 500 r s x) ''tokens'' = Some ex_refreshed"
    for r s x
    by (simp_all add: ex_env_def ex_world_def refresh_request_def)
  note t1 = C5_failed_refresh_does_not_abort
      [OF a [of "status_response 401" "ok_response ''2''" True]
          b [of "status_response 401" "ok_response ''2''" True],
       where res = "\<lparr>StatusCode = 401, Body = Some []\<rparr>" and err = "ErrStatus 401"
         and c' = ex_client
         and ?w4.0 = "snd (snd (refresh_attempt
                                 (ex_env 500 (status_response 401) (ok_response ''2'') True)
                                 ex_client ex_world))"
         and ?w5.0 = "logger ErrorLevel ''Failed to refresh token'' [zap_Error (ErrStatus 401)]
                       (snd (snd (refresh_attempt
                                    (ex_env 500 (status_response 401) (ok_response ''2'') True)
                                    ex_client ex_world)))"
         and url = "members_url (client_config ex_client)"]
  have c: ?C
    using mp [OF conjunct1 [OF t1]] by (simp add: h status_response_def)
  have c': "refresh_attempt (ex_env 500 (status_response 401) (ok_response ''2'') True)
              ex_client ex_world =
            (Some (ErrStatus 401), ex_client,
             snd (snd (refresh_attempt (ex_env 500 (status_response 401) (ok_response ''2'') True)
                         ex_client ex_world)))"
    by (simp add: refresh_attempt_def RefreshCredentials_def refresh_url_def ex_defs run_defs)
  note u1 = mp [OF conjunct2 [OF t1] conjI [OF c' conjI [OF refl refl]]]
  have d: ?D by (rule conjunct1 [OF u1])
  have e: ?E by (rule conjunct1 [OF conjunct2 [OF u1]])
  have f: ?F
    by (simp add: requests_of_def authorization_def fetchPledges_def FetchPledges_def
        FetchPledges_loop.simps RefreshCredentials_def refresh_url_def members_url_def
        time_Until_def time_Sub_def minDuration_def maxDuration_def Hour_def Second_def
        ex_defs run_defs)
  have g: ?G
    by (simp add: refresh_attempt_def RefreshCredentials_def refresh_url_def db_Exec_update_def
          ex_defs run_defs)
  then have g': "refresh_attempt (ex_env 500 (ok_response ''tokens'') (ok_response ''2'') False)
                   ex_client ex_world =
                 (Some ErrDatabase,
                  fst (snd (refresh_attempt
                              (ex_env 500 (ok_response ''tokens'') (ok_response ''2'') False)
                              ex_client ex_world)),
                  snd (snd (refresh_attempt
                              (ex_env 500 (ok_response ''tokens'') (ok_response ''2'') False)
                              ex_client ex_world)))"
    by (metis prod.collapse)
  note t2 = C5_failed_refresh_does_not_abort
      [OF a [of "ok_response ''tokens''" "ok_response ''2''" False]
          b [of "ok_response ''tokens''" "ok_response ''2''" False],
       where err = ErrDatabase
         and c' = "fst (snd (refresh_attempt
                               (ex_env 500 (ok_response ''tokens'') (ok_response ''2'') False)
                               ex_client ex_world))"
         and ?w4.0 = "snd (snd (refresh_attempt
                                 (ex_env 500 (ok_response ''tokens'') (ok_response ''2'') False)
                                 ex_client ex_world))"]
  note u2 = mp [OF conjunct2 [OF t2] conjI [OF g' conjI [OF refl refl]]]
  have "\<exists>res body.
          Do (ex_env 500 (ok_response ''tokens'') (ok_response ''2'') False)
            (length (requests ex_world)) (refresh_request ex_client) = Some res \<and>
          StatusCode res = 200 \<and>
          Option.bind (Body res)
            (decode_RefreshResponse (ex_env 500 (ok_response ''tokens'') (ok_response ''2'') False)) =
            Some body \<and>
          Tokens (fst (snd (refresh_attempt
                              (ex_env 500 (ok_response ''tokens'') (ok_response ''2'') False)
                              ex_client ex_world))) =
            \<lparr>AccessToken = Resp_AccessToken body,
             RefreshToken = Resp_RefreshToken body,
             ExpiresAt = Now (ex_env 500 (ok_response ''tokens'') (ok_response ''2'') False)
                           (Suc (Suc (clock_reads ex_world))) + seconds (ExpiresIn body)\<rparr>"
    by (rule mp [OF conjunct1 [OF conjunct2 [OF conjunct2 [OF conjunct2 [OF u2]]]] refl])
  then have hh: ?H
    by (auto simp: h ok_response_def ex_refreshed_def)
  show ?thesis
    by (intro conjI) (rule a b c d e f g hh)+
qed

section \<open>The patron of a member entry\<close>

lemma merge_members_absent:
  "e \<notin> set (emails ms) \<Longrightarrow> merge_members conf incl data ms e = data e"
  by (induction ms arbitrary: data) (auto simp: emails_def)

lemma merge_members_append:
  "merge_members conf incl data (xs @ ys) =
     merge_members conf incl (merge_members conf incl data xs) ys"
  by (induction xs arbitrary: data) simp_all

lemma merge_members_last:
  assumes "Email (Member_Attributes m) \<noteq> []"
    and "Email (Member_Attributes m) \<notin> set (emails ms2)"
  shows "merge_members conf incl data (ms1 @ m # ms2) (Email (Member_Attributes m)) =
           Some (patron_of conf incl m)"
  using assms by (simp add: merge_members_append merge_members_absent)

lemma merge_pages_absent:
  "e \<notin> set (emails (concat (map Data ps))) \<Longrightarrow> merge_pages conf data ps e = data e"
  by (induction ps arbitrary: data) (auto simp: emails_def merge_members_absent)

lemma merge_pages_append:
  "merge_pages conf data (ps @ qs) = merge_pages conf (merge_pages conf data ps) qs"
  by (induction ps arbitrary: data) simp_all

lemma merge_pages_last:
  assumes "Data pg = ms1 @ m # ms2"
    and "Email (Member_Attributes m) \<noteq> []"
    and "Email (Member_Attributes m) \<notin> set (emails (ms2 @ concat (map Data post)))"
  shows "merge_pages conf data (pre @ pg # post) (Email (Member_Attributes m)) =
           Some (patron_of conf (Included pg) m)"
proof -
  from assms(3) have a: "Email (Member_Attributes m) \<notin> set (emails ms2)"
    and b: "Email (Member_Attributes m) \<notin> set (emails (concat (map Data post)))"
    by (auto simp: emails_def)
  show ?thesis
    by (simp add: merge_pages_append merge_pages_absent [OF b] assms(1)
          merge_members_last [OF assms(2) a])
qed

lemma members_log_append:
  "members_log conf (xs @ ys) = members_log conf xs @ members_log conf ys"
  by (induction xs) simp_all

lemma members_log_warning:
  assumes "Data pg = ms1 @ m # ms2" "Email (Member_Attributes m) \<noteq> []"
    and "t \<in> set (Relationships_CurrentlyEntitledTiers_Data m)" "Config_Tiers conf t = None"
  shows "unknown_tier_warning t \<in> set (members_log conf (Data pg))"
  using assms by (simp add: members_log_append)

lemma served_pages_log:
  "served env c url w ps \<Longrightarrow> pg \<in> set ps \<Longrightarrow>
   set (members_log conf (Data pg)) \<subseteq> set (pages_log conf url ps)"
proof (induction ps arbitrary: url w)
  case Nil
  then show ?case by simp
next
  case (Cons p ps)
  show ?case
  proof (cases "pg = p")
    case True
    then show ?thesis by auto
  next
    case False
    with Cons.prems(2) have in_ps: "pg \<in> set ps" and ne: "ps \<noteq> []" by auto
    from served_Cons_fetch [OF Cons.prems(1)]
    obtain w1 where f: "FetchPage env c w url = (Inr p, w1)" by blast
    from served_Cons_rest [OF Cons.prems(1) ne f]
    obtain u where u: "next_link p = Some u"
      and s: "served env c u (w1\<lparr>log := log w1 @ members_log (client_config c) (Data p)\<rparr>) ps"
      by blast
    from Cons.IH [OF s in_ps] u show ?thesis by auto
  qed
qed

lemma served_member:
  assumes "served env c (members_url (client_config c)) w ps"
    and "next_link (last ps) = None"
    and "ps = pre @ pg # post"
    and "Data pg = ms1 @ m # ms2"
    and "Email (Member_Attributes m) \<noteq> []"
    and "Email (Member_Attributes m) \<notin> set (emails (ms2 @ concat (map Data post)))"
  shows "\<exists>d w'. FetchPledges env c w = Some ((GoMap d, None), w') \<and>
           d (Email (Member_Attributes m)) = Some (patron_of (client_config c) (Included pg) m) \<and>
           (\<forall>t \<in> set (Relationships_CurrentlyEntitledTiers_Data m).
              Config_Tiers (client_config c) t = None \<longrightarrow>
              unknown_tier_warning t \<in> set (log w'))"
proof -
  let ?conf = "client_config c"
  let ?url = "members_url ?conf"
  from assms(3) have ne: "ps \<noteq> []" and mem: "pg \<in> set ps" by auto
  have f: "FetchPledges env c w =
             Some ((GoMap (merge_pages ?conf Map.empty ps), None), world_after_pages c ?url ps w)"
    unfolding FetchPledges_def by (rule loop_served [OF assms(1) ne assms(2)])
  have d: "merge_pages ?conf Map.empty ps (Email (Member_Attributes m)) =
             Some (patron_of ?conf (Included pg) m)"
    unfolding assms(3) by (rule merge_pages_last [OF assms(4) assms(5) assms(6)])
  have l: "unknown_tier_warning t \<in> set (log (world_after_pages c ?url ps w))"
    if "t \<in> set (Relationships_CurrentlyEntitledTiers_Data m)" "Config_Tiers ?conf t = None" for t
    using members_log_warning [OF assms(4) assms(5) that]
      served_pages_log [OF assms(1) mem, of ?conf]
    by (auto simp: world_after_pages_def)
  from f d l show ?thesis by blast
qed

text \<open>
  C7, as the claim states it, fails for a member entry that a later entry with the same
  email follows: the later entry replaces it. The entry of user 4 has the known tier 10
  and the unknown tier 98; what the collection holds under its email is the entry of
  user 5 from the second page, with no tier.
\<close>

theorem C7_counterexample:
  "ex_member ''c@x'' 4 [10, 98] \<in> set (Data ex_page1) \<and>
   Config_Tiers ex_conf 98 = None \<and>
   Config_Tiers ex_conf 10 = Some ''Gold'' \<and>
   map_option Id
     (sent_patron (fetchPledges (ex_env 500 (status_response 401) (ok_response ''2'') True)
                     ex_client ex_world) ''c@x'') = Some 5 \<and>
   map_option Tiers
     (sent_patron (fetchPledges (ex_env 500 (status_response 401) (ok_response ''2'') True)
                     ex_client ex_world) ''c@x'') = Some []"
  by (simp add: sent_patron_def fetchPledges_def FetchPledges_def
        FetchPledges_loop.simps RefreshCredentials_def refresh_url_def members_url_def
        time_Until_def time_Sub_def minDuration_def maxDuration_def Hour_def Second_def
        ex_defs run_defs)

text \<open>
  C7, amended. For every tier mapping and every member entry with a non-empty email that
  no later entry of the same aggregation shares, the collection holds, under that email,
  the patron of that entry: its attributes and its user id, and as tiers the entitled
  tier ids that the mapping knows, in their order, the others left out.
\<close>

theorem C7_unknown_tier_keeps_member:
  assumes "served env c (members_url (client_config c)) w ps"
    and "next_link (last ps) = None"
    and "ps = pre @ pg # post"
    and "Data pg = ms1 @ m # ms2"
    and "Email (Member_Attributes m) \<noteq> []"
    and "Email (Member_Attributes m) \<notin> set (emails (ms2 @ concat (map Data post)))"
  shows "\<exists>d w' p.
           FetchPledges env c w = Some ((GoMap d, None), w') \<and>
           d (Email (Member_Attributes m)) = Some p \<and>
           Attributes p = Member_Attributes m \<and>
           Id p = Relationships_User_Data_Id m \<and>
           Tiers p = filter (\<lambda>t. Config_Tiers (client_config c) t \<noteq> None)
                       (Relationships_CurrentlyEntitledTiers_Data m) \<and>
           (\<forall>t \<in> set (Relationships_CurrentlyEntitledTiers_Data m).
              t \<in> set (Tiers p) \<longleftrightarrow> Config_Tiers (client_config c) t \<noteq> None)"
proof -
  from served_member [OF assms] obtain d w' where
    f: "FetchPledges env c w = Some ((GoMap d, None), w')" and
    p: "d (Email (Member_Attributes m)) = Some (patron_of (client_config c) (Included pg) m)"
    by blast
  let ?p = "patron_of (client_config c) (Included pg) m"
  have "Attributes ?p = Member_Attributes m" "Id ?p = Relationships_User_Data_Id m"
    "Tiers ?p = filter (\<lambda>t. Config_Tiers (client_config c) t \<noteq> None)
                  (Relationships_CurrentlyEntitledTiers_Data m)"
    "\<forall>t \<in> set (Relationships_CurrentlyEntitledTiers_Data m).
       t \<in> set (Tiers ?p) \<longleftrightarrow> Config_Tiers (client_config c) t \<noteq> None"
    by (simp_all add: patron_of_def)
  with f p show ?thesis by blast
qed

theorem C7_witness:
  "served (ex_env 500 (status_response 401) (ok_response ''2'') True) ex_client
     (members_url (client_config ex_client)) ex_world [ex_page1, ex_page2] \<and>
   next_link (last [ex_page1, ex_page2]) = None \<and>
   [ex_page1, ex_page2] = [] @ ex_page1 # [ex_page2] \<and>
   Data ex_page1 =
     [] @ ex_member ''a@x'' 1 [10, 99] # [ex_member [] 2 [10], ex_member ''c@x'' 4 [10, 98]] \<and>
   Email (Member_Attributes (ex_member ''a@x'' 1 [10, 99])) \<noteq> [] \<and>
   Email (Member_Attributes (ex_member ''a@x'' 1 [10, 99])) \<notin>
     set (emails ([ex_member [] 2 [10], ex_member ''c@x'' 4 [10, 98]] @
                  concat (map Data [ex_page2]))) \<and>
   (\<exists>d w' p.
      FetchPledges (ex_env 500 (status_response 401) (ok_response ''2'') True) ex_client ex_world =
        Some ((GoMap d, None), w') \<and>
      d (Email (Member_Attributes (ex_member ''a@x'' 1 [10, 99]))) = Some p \<and>
      Attributes p = Member_Attributes (ex_member ''a@x'' 1 [10, 99]) \<and>
      Id p = Relationships_User_Data_Id (ex_member ''a@x'' 1 [10, 99]) \<and>
      Tiers p = [10])"
  (is "?A \<and> ?B \<and> ?C \<and> ?D \<and> ?E \<and> ?F \<and> ?G")
proof -
  have a: ?A using ex_served [of 500 "status_response 401" True 0] by (simp add: ex_world_def)
  have b: ?B by (simp add: ex_defs next_link_def)
  have c: ?C by simp
  have d: ?D by (simp add: ex_defs)
  have e: ?E by (simp add: ex_defs)
  have f: ?F by (simp add: emails_def ex_defs)
  have t: "filter (\<lambda>t. Config_Tiers (client_config ex_client) t \<noteq> None)
             (Relationships_CurrentlyEntitledTiers_Data (ex_member ''a@x'' 1 [10, 99])) = [10]"
    by (simp add: ex_defs)
  from C7_unknown_tier_keeps_member [OF a b c d e f] have g: ?G
    unfolding t by blast
  show ?thesis
    by (intro conjI) (rule a b c d e f g)+
qed

lemma handleCommand_email_found:
  assumes "hasInitialData s"
    and "contains (Discord_AllowedGuilds (config s)) (GuildId data)"
    and "Command_Name data = ''lookup''"
    and "Options data = (''email'', StringValue email) # rest"
    and "gomap_lookup (pledges s) email = Some p"
  shows "handleCommand s now data = account_found s now data p"
  using assms by (simp add: handleCommand_def)

lemma account_found_tiers:
  "\<exists>e. account_found s now data p = Embeds [e] \<and>
       Title e = ''Account Found'' \<and>
       map_of (Fields e) ''Active Tiers'' =
         Some (strings_Join (tier_names (config s) (Tiers p)) '', '')"
  by (simp add: account_found_def Let_def)

lemma lookup_after_publish:
  assumes "contains (Discord_AllowedGuilds (config srv)) (GuildId data)"
    and "Command_Name data = ''lookup''"
    and "Options data = (''email'', StringValue email) # rest"
    and "d email = Some p"
  shows "\<exists>e. handleCommand (UpdatePledges order (GoMap d) srv) now data = Embeds [e] \<and>
            Title e = ''Account Found'' \<and>
            map_of (Fields e) ''Active Tiers'' =
              Some (strings_Join (tier_names (config srv) (Tiers p)) '', '')"
proof -
  let ?s = "UpdatePledges order (GoMap d) srv"
  have c: "config ?s = config srv" and l: "gomap_lookup (pledges ?s) email = Some p"
    and i: "hasInitialData ?s"
    using assms(4) by (simp_all add: UpdatePledges_def hasInitialData_def)
  have "handleCommand ?s now data = account_found ?s now data p"
    by (rule handleCommand_email_found [OF i _ assms(2) assms(3) l]) (simp add: c assms(1))
  with account_found_tiers [of ?s now data p] c show ?thesis by simp
qed

text \<open>
  C6, as the claim states it, fails in two ways. A patron's tiers are tier ids: for the
  member of the scenario the list is the id 10, not the name. And a later entry with the
  same email replaces the patron: on the page where user 6, entitled to 10 and 99, is
  followed by user 7 with the same email and no tier, what the collection holds under
  that email is user 7 with an empty tier list.
\<close>

theorem C6_counterexample:
  "Relationships_CurrentlyEntitledTiers_Data (ex_member ''a@x'' 1 [10, 99]) = [10, 99] \<and>
   ex_member ''a@x'' 1 [10, 99] \<in> set (Data ex_page1) \<and>
   Config_Tiers ex_conf 10 = Some ''Gold'' \<and>
   Config_Tiers ex_conf 99 = None \<and>
   map_option Tiers
     (sent_patron (fetchPledges (ex_env 500 (status_response 401) (ok_response ''2'') True)
                     ex_client ex_world) ''a@x'') = Some [10] \<and>
   Relationships_CurrentlyEntitledTiers_Data (ex_member ''d@x'' 6 [10, 99]) = [10, 99] \<and>
   ex_member ''d@x'' 6 [10, 99] \<in> set (Data ex_dup_page) \<and>
   map_option Id
     (sent_patron (fetchPledges (ex_env_dup 500) ex_client ex_world) ''d@x'') = Some 7 \<and>
   map_option Tiers
     (sent_patron (fetchPledges (ex_env_dup 500) ex_client ex_world) ''d@x'') = Some []"
  by (simp add: sent_patron_def fetchPledges_def FetchPledges_def
        FetchPledges_loop.simps RefreshCredentials_def refresh_url_def members_url_def
        time_Until_def time_Sub_def minDuration_def maxDuration_def Hour_def Second_def
        ex_env_dup_def ex_dup_page_def ex_defs run_defs)

text \<open>
  C6, amended. For a member entry with a non-empty email that no later entry shares,
  entitled to the tiers 10 and 99, under a mapping that holds only 10 as Gold: the
  patron's tier list is the id 10 alone, the log holds the warning for the unknown tier
  99, and once the collection is published, a lookup of the member's email on a server
  with that configuration answers Account Found with Gold as the active tiers.
\<close>

theorem C6_gold_scenario:
  assumes "served env c (members_url (client_config c)) w ps"
    and "next_link (last ps) = None"
    and "ps = pre @ pg # post"
    and "Data pg = ms1 @ m # ms2"
    and "Email (Member_Attributes m) \<noteq> []"
    and "Email (Member_Attributes m) \<notin> set (emails (ms2 @ concat (map Data post)))"
    and "Relationships_CurrentlyEntitledTiers_Data m = [10, 99]"
    and "Config_Tiers (client_config c) = [10 \<mapsto> ''Gold'']"
  shows "\<exists>d w' p.
           FetchPledges env c w = Some ((GoMap d, None), w') \<and>
           d (Email (Member_Attributes m)) = Some p \<and>
           Tiers p = [10] \<and>
           tier_names (client_config c) (Tiers p) = [''Gold''] \<and>
           unknown_tier_warning 99 \<in> set (log w') \<and>
           (\<forall>srv order now data rest.
              config srv = client_config c \<and>
              contains (Discord_AllowedGuilds (config srv)) (GuildId data) \<and>
              Command_Name data = ''lookup'' \<and>
              Options data = (''email'', StringValue (Email (Member_Attributes m))) # rest \<longrightarrow>
              (\<exists>e. handleCommand (UpdatePledges order (GoMap d) srv) now data = Embeds [e] \<and>
                   Title e = ''Account Found'' \<and>
                   map_of (Fields e) ''Active Tiers'' = Some ''Gold''))"
proof -
  from served_member [OF assms(1-6)] obtain d w' where
    f: "FetchPledges env c w = Some ((GoMap d, None), w')" and
    p: "d (Email (Member_Attributes m)) = Some (patron_of (client_config c) (Included pg) m)" and
    l: "\<forall>t \<in> set (Relationships_CurrentlyEntitledTiers_Data m).
          Config_Tiers (client_config c) t = None \<longrightarrow> unknown_tier_warning t \<in> set (log w')"
    by blast
  let ?p = "patron_of (client_config c) (Included pg) m"
  have t: "Tiers ?p = [10]"
    by (simp add: patron_of_def assms(7) assms(8))
  have n: "tier_names (client_config c) (Tiers ?p) = [''Gold'']"
    by (simp add: t tier_names_def assms(8))
  have w: "unknown_tier_warning 99 \<in> set (log w')"
    using l by (simp add: assms(7) assms(8))
  have h: "\<exists>e. handleCommand (UpdatePledges order (GoMap d) srv) now data = Embeds [e] \<and>
               Title e = ''Account Found'' \<and>
               map_of (Fields e) ''Active Tiers'' = Some ''Gold''"
    if "config srv = client_config c \<and>
        contains (Discord_AllowedGuilds (config srv)) (GuildId data) \<and>
        Command_Name data = ''lookup'' \<and>
        Options data = (''email'', StringValue (Email (Member_Attributes m))) # rest"
    for srv order now data rest
  proof -
    from that have c: "config srv = client_config c"
      and g: "contains (Discord_AllowedGuilds (config srv)) (GuildId data)"
      and k: "Command_Name data = ''lookup''"
      and o: "Options data = (''email'', StringValue (Email (Member_Attributes m))) # rest"
      by blast+
    from lookup_after_publish
           [where d = d and email = "Email (Member_Attributes m)" and order = order and now = now,
            OF g k o p]
    show ?thesis
      by (simp add: c n)
  qed
  from f p t n w h show ?thesis by blast
qed

theorem C6_witness:
  "served (ex_env 500 (status_response 401) (ok_response ''2'') True) ex_client
     (members_url (client_config ex_client)) ex_world [ex_page1, ex_page2] \<and>
   next_link (last [ex_page1, ex_page2]) = None \<and>
   [ex_page1, ex_page2] = [] @ ex_page1 # [ex_page2] \<and>
   Data ex_page1 =
     [] @ ex_member ''a@x'' 1 [10, 99] # [ex_member [] 2 [10], ex_member ''c@x'' 4 [10, 98]] \<and>
   Email (Member_Attributes (ex_member ''a@x'' 1 [10, 99])) \<noteq> [] \<and>
   Email (Member_Attributes (ex_member ''a@x'' 1 [10, 99])) \<notin>
     set (emails ([ex_member [] 2 [10], ex_member ''c@x'' 4 [10, 98]] @
                  concat (map Data [ex_page2]))) \<and>
   Relationships_CurrentlyEntitledTiers_Data (ex_member ''a@x'' 1 [10, 99]) = [10, 99] \<and>
   Config_Tiers (client_config ex_client) = [10 \<mapsto> ''Gold''] \<and>
   (\<exists>d w' p.
      FetchPledges (ex_env 500 (status_response 401) (ok_response ''2'') True) ex_client ex_world =
        Some ((GoMap d, None), w') \<and>
      d (Email (Member_Attributes (ex_member ''a@x'' 1 [10, 99]))) = Some p \<and>
      Tiers p = [10] \<and>
      tier_names (client_config ex_client) (Tiers p) = [''Gold''] \<and>
      unknown_tier_warning 99 \<in> set (log w') \<and>
      (\<exists>e. handleCommand (UpdatePledges [''a@x'', ''b@x'', ''c@x''] (GoMap d) (NewServer ex_conf))
              0 (ex_lookup ''email'' ''a@x'') = Embeds [e] \<and>
           Title e = ''Account Found'' \<and>
           map_of (Fields e) ''Active Tiers'' = Some ''Gold''))"
  (is "?A \<and> ?B \<and> ?C \<and> ?D \<and> ?E \<and> ?F \<and> ?G \<and> ?H \<and> ?I")
proof -
  have a: ?A using ex_served [of 500 "status_response 401" True 0] by (simp add: ex_world_def)
  have b: ?B by (simp add: ex_defs next_link_def)
  have c: ?C by simp
  have d: ?D by (simp add: ex_defs)
  have e: ?E by (simp add: ex_defs)
  have f: ?F by (simp add: emails_def ex_defs)
  have g: ?G by (simp add: ex_defs)
  have h: ?H by (simp add: ex_defs)
  from C6_gold_scenario [OF a b c d e f g h] obtain dd w' p where
    r: "FetchPledges (ex_env 500 (status_response 401) (ok_response ''2'') True) ex_client ex_world =
          Some ((GoMap dd, None), w')"
      "dd (Email (Member_Attributes (ex_member ''a@x'' 1 [10, 99]))) = Some p"
      "Tiers p = [10]"
      "tier_names (client_config ex_client) (Tiers p) = [''Gold'']"
      "unknown_tier_warning 99 \<in> set (log w')"
    and q: "\<And>srv order now data rest.
              config srv = client_config ex_client \<and>
              contains (Discord_AllowedGuilds (config srv)) (GuildId data) \<and>
              Command_Name data = ''lookup'' \<and>
              Options data =
                (''email'', StringValue (Email (Member_Attributes (ex_member ''a@x'' 1 [10, 99])))) # rest \<Longrightarrow>
              (\<exists>e. handleCommand (UpdatePledges order (GoMap dd) srv) now data = Embeds [e] \<and>
                   Title e = ''Account Found'' \<and>
                   map_of (Fields e) ''Active Tiers'' = Some ''Gold'')"
    by blast
  have "config (NewServer ex_conf) = client_config ex_client \<and>
        contains (Discord_AllowedGuilds (config (NewServer ex_conf)))
          (GuildId (ex_lookup ''email'' ''a@x'')) \<and>
        Command_Name (ex_lookup ''email'' ''a@x'') = ''lookup'' \<and>
        Options (ex_lookup ''email'' ''a@x'') =
          (''email'', StringValue (Email (Member_Attributes (ex_member ''a@x'' 1 [10, 99])))) # []"
    by (simp add: NewServer_def contains_def ex_lookup_def ex_defs)
  from q [OF this, of "[''a@x'', ''b@x'', ''c@x'']" 0] r have i: ?I by blast
  show ?thesis
    by (intro conjI) (rule a b c d e f g h i)+
qed

section \<open>Loaded once, loaded for good\<close>

lemma UpdatePledges_loaded: "hasInitialData (UpdatePledges order m s)"
  by (simp add: hasInitialData_def UpdatePledges_def)

lemma publish_all_loaded: "hasInitialData s \<Longrightarrow> hasInitialData (publish_all pubs s)"
  by (induction pubs arbitrary: s) (auto simp: UpdatePledges_loaded)

lemma cycle_server:
  assumes "cycle env order (c, w, srv) = Some (out, c', w', srv')"
  shows "srv' = srv \<or> (\<exists>m. out = Sent m \<and> srv' = UpdatePledges order m srv)"
  using assms by (auto simp: cycle_def split: option.splits outcome.splits)

lemma handleCommand_loaded:
  "hasInitialData s \<Longrightarrow>
   handleCommand s now data \<noteq>
     Ephemeral ''Initial data not loaded yet, please try again in a few minutes''"
  by (auto simp: handleCommand_def not_found_def account_found_def Let_def
      split: list.splits option.splits option_value.splits)

lemma handleCommand_email_not_found:
  assumes "hasInitialData s"
    and "contains (Discord_AllowedGuilds (config s)) (GuildId data)"
    and "Command_Name data = ''lookup''"
    and "Options data = (''email'', StringValue email) # rest"
    and "gomap_lookup (pledges s) email = None"
  shows "handleCommand s now data =
           not_found now (''No Patreon account with email `'' @ email @ ''` found'')"
  using assms by (simp add: handleCommand_def)

lemma handleCommand_user_not_found:
  assumes "hasInitialData s"
    and "contains (Discord_AllowedGuilds (config s)) (GuildId data)"
    and "Command_Name data = ''lookup''"
    and "Options data = (''user'', StringValue userStr) # rest"
    and "ParseUint userStr = Some userId"
    and "gomap_lookup (pledgesByDiscordId s) userId = None"
  shows "handleCommand s now data =
           not_found now (''No Patreon account with id `'' @ sprint_uint64 userId @ ''` found'')"
  using assms by (simp add: handleCommand_def)

lemma handleCommand_not_loaded:
  assumes "\<not> hasInitialData s"
    and "contains (Discord_AllowedGuilds (config s)) (GuildId data)"
    and "Command_Name data = ''lookup''"
    and "Options data = (argType, val) # rest"
    and "argType = ''email'' \<or> argType = ''user''"
  shows "handleCommand s now data =
           Ephemeral ''Initial data not loaded yet, please try again in a few minutes''"
  using assms by (auto simp: handleCommand_def)

text \<open>
  C10. A successful aggregation returns a map that is not nil. After a cycle that sends
  a collection, and after any publish at all, the server has its initial data, and it
  keeps it through every further publish and every further cycle, whatever its outcome.
  A server that has its initial data never answers that the data is not loaded yet; a
  lookup of an email or of a user id that the snapshot does not hold is answered with the
  account-not-found message, where a server that has never been published to answers
  that the data is not loaded yet.
\<close>

theorem C10_loaded_never_reverts:
  "(FetchPledges env c w = Some ((m, None), w') \<longrightarrow> (\<exists>d. m = GoMap d)) \<and>
   (cycle env order (c, w, srv) = Some (Sent m, c', w', srv') \<longrightarrow> hasInitialData srv') \<and>
   hasInitialData (publish_all pubs (UpdatePledges order fetched srv)) \<and>
   (hasInitialData srv \<longrightarrow>
      cycle env order (c, w, srv) = Some (out, c', w', srv') \<longrightarrow> hasInitialData srv') \<and>
   (hasInitialData s \<longrightarrow>
      handleCommand s now data \<noteq>
        Ephemeral ''Initial data not loaded yet, please try again in a few minutes'') \<and>
   (hasInitialData s \<and>
    contains (Discord_AllowedGuilds (config s)) (GuildId data) \<and>
    Command_Name data = ''lookup'' \<and>
    Options data = (''email'', StringValue email) # rest \<and>
    gomap_lookup (pledges s) email = None \<longrightarrow>
      handleCommand s now data =
        not_found now (''No Patreon account with email `'' @ email @ ''` found'')) \<and>
   (hasInitialData s \<and>
    contains (Discord_AllowedGuilds (config s)) (GuildId data) \<and>
    Command_Name data = ''lookup'' \<and>
    Options data = (''user'', StringValue userStr) # rest \<and>
    ParseUint userStr = Some userId \<and>
    gomap_lookup (pledgesByDiscordId s) userId = None \<longrightarrow>
      handleCommand s now data =
        not_found now (''No Patreon account with id `'' @ sprint_uint64 userId @ ''` found'')) \<and>
   (\<not> hasInitialData s \<and>
    contains (Discord_AllowedGuilds (config s)) (GuildId data) \<and>
    Command_Name data = ''lookup'' \<and>
    Options data = (argType, val) # rest \<and>
    (argType = ''email'' \<or> argType = ''user'') \<longrightarrow>
      handleCommand s now data =
        Ephemeral ''Initial data not loaded yet, please try again in a few minutes'')"
proof (intro conjI impI)
  assume "FetchPledges env c w = Some ((m, None), w')"
  from FetchPledges_success [OF this] show "\<exists>d. m = GoMap d" by blast
next
  assume "cycle env order (c, w, srv) = Some (Sent m, c', w', srv')"
  from cycle_sent [OF this] show "hasInitialData srv'"
    by (simp add: UpdatePledges_loaded)
next
  show "hasInitialData (publish_all pubs (UpdatePledges order fetched srv))"
    by (rule publish_all_loaded [OF UpdatePledges_loaded])
next
  assume "hasInitialData srv" "cycle env order (c, w, srv) = Some (out, c', w', srv')"
  with cycle_server [of env order c w srv out c' w' srv'] show "hasInitialData srv'"
    by (auto simp: UpdatePledges_loaded)
next
  assume "hasInitialData s"
  then show "handleCommand s now data \<noteq>
        Ephemeral ''Initial data not loaded yet, please try again in a few minutes''"
    by (rule handleCommand_loaded)
next
  assume "hasInitialData s \<and>
    contains (Discord_AllowedGuilds (config s)) (GuildId data) \<and>
    Command_Name data = ''lookup'' \<and>
    Options data = (''email'', StringValue email) # rest \<and>
    gomap_lookup (pledges s) email = None"
  then show "handleCommand s now data =
        not_found now (''No Patreon account with email `'' @ email @ ''` found'')"
    using handleCommand_email_not_found by blast
next
  assume "hasInitialData s \<and>
    contains (Discord_AllowedGuilds (config s)) (GuildId data) \<and>
    Command_Name data = ''lookup'' \<and>
    Options data = (''user'', StringValue userStr) # rest \<and>
    ParseUint userStr = Some userId \<and>
    gomap_lookup (pledgesByDiscordId s) userId = None"
  then show "handleCommand s now data =
        not_found now (''No Patreon account with id `'' @ sprint_uint64 userId @ ''` found'')"
    using handleCommand_user_not_found by blast
next
  assume "\<not> hasInitialData s \<and>
    contains (Discord_AllowedGuilds (config s)) (GuildId data) \<and>
    Command_Name data = ''lookup'' \<and>
    Options data = (argType, val) # rest \<and>
    (argType = ''email'' \<or> argType = ''user'')"
  then show "handleCommand s now data =
        Ephemeral ''Initial data not loaded yet, please try again in a few minutes''"
    using handleCommand_not_loaded by blast
qed

theorem C10_witness:
  "cycle (ex_env ex_early (status_response 401) (ok_response ''2'') True) [''a@x'', ''b@x'', ''c@x'']
     (ex_client, ex_world, NewServer ex_conf) =
     Some (Sent (GoMap (merge_pages ex_conf Map.empty [ex_page1, ex_page2])), ex_client,
           world_after_pages ex_client (members_url ex_conf) [ex_page1, ex_page2]
             (ex_world\<lparr>clock_reads := 2\<rparr>),
           UpdatePledges [''a@x'', ''b@x'', ''c@x'']
             (GoMap (merge_pages ex_conf Map.empty [ex_page1, ex_page2])) (NewServer ex_conf)) \<and>
   hasInitialData
     (UpdatePledges [''a@x'', ''b@x'', ''c@x'']
        (GoMap (merge_pages ex_conf Map.empty [ex_page1, ex_page2])) (NewServer ex_conf)) \<and>
   hasInitialData (publish_all [] (UpdatePledges [] (GoMap Map.empty) (NewServer ex_conf))) \<and>
   handleCommand
     (UpdatePledges [''a@x'', ''b@x'', ''c@x'']
        (GoMap (merge_pages ex_conf Map.empty [ex_page1, ex_page2])) (NewServer ex_conf))
     0 (ex_lookup ''email'' ''nobody@x'') =
     not_found 0 (''No Patreon account with email `'' @ ''nobody@x'' @ ''` found'') \<and>
   handleCommand (UpdatePledges [] (GoMap Map.empty) (NewServer ex_conf))
     0 (ex_lookup ''user'' ''7'') =
     not_found 0 (''No Patreon account with id `'' @ sprint_uint64 7 @ ''` found'') \<and>
   handleCommand (NewServer ex_conf) 0 (ex_lookup ''email'' ''nobody@x'') =
     Ephemeral ''Initial data not loaded yet, please try again in a few minutes''"
  (is "?A \<and> ?B \<and> ?C \<and> ?D \<and> ?E \<and> ?F")
proof -
  let ?Env = "ex_env ex_early (status_response 401) (ok_response ''2'') True"
  let ?M = "GoMap (merge_pages ex_conf Map.empty [ex_page1, ex_page2])"
  let ?S = "UpdatePledges [''a@x'', ''b@x'', ''c@x''] ?M (NewServer ex_conf)"
  let ?Z = "UpdatePledges [] (GoMap Map.empty) (NewServer ex_conf)"
  have a: ?A by (rule ex_cycle)
  note t1 = C10_loaded_never_reverts
      [where env = ?Env and order = "[''a@x'', ''b@x'', ''c@x'']" and c = ex_client and w = ex_world
         and srv = "NewServer ex_conf" and m = ?M and c' = ex_client and srv' = ?S
         and w' = "world_after_pages ex_client (members_url ex_conf) [ex_page1, ex_page2]
                     (ex_world\<lparr>clock_reads := 2\<rparr>)"
         and s = ?S and data = "ex_lookup ''email'' ''nobody@x''" and email = "''nobody@x''"
         and rest = "[]" and now = 0]
  have b: ?B using t1 a by blast
  have h1: "contains (Discord_AllowedGuilds (config ?S)) (GuildId (ex_lookup ''email'' ''nobody@x''))"
    "Command_Name (ex_lookup ''email'' ''nobody@x'') = ''lookup''"
    "Options (ex_lookup ''email'' ''nobody@x'') = (''email'', StringValue ''nobody@x'') # []"
    "gomap_lookup (pledges ?S) ''nobody@x'' = None"
    by (simp_all add: contains_def UpdatePledges_def NewServer_def ex_lookup_def ex_defs)
  have d: ?D using t1 b h1 by blast
  note t2 = C10_loaded_never_reverts
      [where pubs = "[]" and order = "[]" and fetched = "GoMap Map.empty" and srv = "NewServer ex_conf"
         and s = ?Z and data = "ex_lookup ''user'' ''7''" and userStr = "''7''" and userId = 7
         and rest = "[]" and now = 0]
  have c: ?C using t2 by blast
  have h2: "contains (Discord_AllowedGuilds (config ?Z)) (GuildId (ex_lookup ''user'' ''7''))"
    "Command_Name (ex_lookup ''user'' ''7'') = ''lookup''"
    "Options (ex_lookup ''user'' ''7'') = (''user'', StringValue ''7'') # []"
    "ParseUint ''7'' = Some 7"
    "gomap_lookup (pledgesByDiscordId ?Z) 7 = None"
    by (simp_all add: contains_def UpdatePledges_def NewServer_def ex_lookup_def ex_defs
          ParseUint_def List.map_filter_simps)
  have e: ?E using t2 c h2 by simp
  note t3 = C10_loaded_never_reverts
      [where s = "NewServer ex_conf" and data = "ex_lookup ''email'' ''nobody@x''"
         and argType = "''email''" and val = "StringValue ''nobody@x''" and rest = "[]" and now = 0]
  have h3: "\<not> hasInitialData (NewServer ex_conf)"
    "contains (Discord_AllowedGuilds (config (NewServer ex_conf)))
       (GuildId (ex_lookup ''email'' ''nobody@x''))"
    "Command_Name (ex_lookup ''email'' ''nobody@x'') = ''lookup''"
    "Options (ex_lookup ''email'' ''nobody@x'') = (''email'', StringValue ''nobody@x'') # []"
    by (simp_all add: hasInitialData_def contains_def NewServer_def ex_lookup_def ex_defs)
  have f: ?F using t3 h3 by blast
  show ?thesis
    by (intro conjI) (rule a b c d e f)+
qed

end
